theory Spec2Isabelle
  imports Main
begin

section \<open>Python values of a departure board response\<close>

text \<open>
  The response of the web service behaves like nested Python dictionaries and lists
  (\<^verbatim>\<open>StationBoard.py\<close>, comment before the \<^verbatim>\<open>return\<close> of
  \<^verbatim>\<open>getServiceInfo\<close>). A dictionary is an association list with string keys;
  a lookup takes the first binding of the key.
\<close>

datatype pyval = PNone | PBool bool | PInt int | PStr string
  | PList "pyval list" | PDict "(string \<times> pyval) list"

datatype key = KStr string | KInt int

datatype py_error = KeyError key | IndexError | TypeError

text \<open>Subscription \<^verbatim>\<open>v[k]\<close>. A negative list index counts from the end.\<close>

definition norm_index :: "nat \<Rightarrow> int \<Rightarrow> nat option" where
  "norm_index n i =
     (let j = (if i < 0 then int n + i else i)
      in if 0 \<le> j \<and> j < int n then Some (nat j) else None)"

fun getitem :: "pyval \<Rightarrow> key \<Rightarrow> py_error + pyval" where
  "getitem (PDict kvs) (KStr k) =
     (case map_of kvs k of None \<Rightarrow> Inl (KeyError (KStr k)) | Some v \<Rightarrow> Inr v)"
| "getitem (PDict kvs) (KInt i) = Inl (KeyError (KInt i))"
| "getitem (PList xs) (KInt i) =
     (case norm_index (length xs) i of None \<Rightarrow> Inl IndexError | Some j \<Rightarrow> Inr (xs ! j))"
| "getitem (PStr s) (KInt i) =
     (case norm_index (length s) i of None \<Rightarrow> Inl IndexError | Some j \<Rightarrow> Inr (PStr [s ! j]))"
| "getitem v k = Inl TypeError"

text \<open>A chain of subscriptions \<^verbatim>\<open>v[k1][k2]...\<close>, left to right.\<close>

fun getpath :: "pyval \<Rightarrow> key list \<Rightarrow> py_error + pyval" where
  "getpath v [] = Inr v"
| "getpath v (k # ks) = (case getitem v k of Inl e \<Rightarrow> Inl e | Inr w \<Rightarrow> getpath w ks)"

text \<open>Truth value of an object in a condition.\<close>

fun truthy :: "pyval \<Rightarrow> bool" where
  "truthy PNone = False"
| "truthy (PBool b) = b"
| "truthy (PInt i) = (i \<noteq> 0)"
| "truthy (PStr s) = (s \<noteq> [])"
| "truthy (PList xs) = (xs \<noteq> [])"
| "truthy (PDict kvs) = (kvs \<noteq> [])"

text \<open>The membership test \<^verbatim>\<open>k in v\<close> for a string \<open>k\<close>.\<close>

fun is_prefix :: "string \<Rightarrow> string \<Rightarrow> bool" where
  "is_prefix [] s = True"
| "is_prefix (c # cs) [] = False"
| "is_prefix (c # cs) (x # xs) = (c = x \<and> is_prefix cs xs)"

fun is_substring :: "string \<Rightarrow> string \<Rightarrow> bool" where
  "is_substring k [] = (k = [])"
| "is_substring k (x # xs) = (is_prefix k (x # xs) \<or> is_substring k xs)"

fun py_in :: "string \<Rightarrow> pyval \<Rightarrow> py_error + bool" where
  "py_in k (PDict kvs) = Inr (k \<in> set (map fst kvs))"
| "py_in k (PList xs) = Inr (PStr k \<in> set xs)"
| "py_in k (PStr s) = Inr (is_substring k s)"
| "py_in k v = Inl TypeError"

text \<open>Iteration \<^verbatim>\<open>for x in v\<close>: the elements of a list, the characters of a
  string, the keys of a dictionary.\<close>

fun py_iter :: "pyval \<Rightarrow> py_error + pyval list" where
  "py_iter (PList xs) = Inr xs"
| "py_iter (PStr s) = Inr (map (\<lambda>c. PStr [c]) s)"
| "py_iter (PDict kvs) = Inr (map (\<lambda>kv. PStr (fst kv)) kvs)"
| "py_iter v = Inl TypeError"

subsection \<open>Conversion to text\<close>

fun nat_digits :: "nat \<Rightarrow> string" where
  "nat_digits n = (if n < 10 then [char_of (48 + n)]
     else nat_digits (n div 10) @ [char_of (48 + n mod 10)])"

declare nat_digits.simps [simp del]

definition int_str :: "int \<Rightarrow> string" where
  "int_str i = (if i < 0 then CHR ''-'' # nat_digits (nat (- i)) else nat_digits (nat i))"

definition hex_digit :: "nat \<Rightarrow> char" where
  "hex_digit n = (if n < 10 then char_of (48 + n) else char_of (87 + n))"

text \<open>\<^verbatim>\<open>repr\<close> of a string whose characters are code points below 256: single
  quotes, unless the string has a single quote and no double quote; the quote and the
  backslash are escaped, and the characters that are not printable (those below 32, 127 to
  160, and 173) are written \<^verbatim>\<open>\t\<close>, \<^verbatim>\<open>\n\<close>, \<^verbatim>\<open>\r\<close> or \<^verbatim>\<open>\xNN\<close>.\<close>

definition repr_char :: "char \<Rightarrow> char \<Rightarrow> string" where
  "repr_char quote c =
     (if c = quote \<or> c = CHR 0x5C then [CHR 0x5C, c]
      else if c = CHR 0x09 then [CHR 0x5C, CHR ''t'']
      else if c = CHR 0x0A then [CHR 0x5C, CHR ''n'']
      else if c = CHR 0x0D then [CHR 0x5C, CHR ''r'']
      else if (of_char c :: nat) < 32 \<or> (of_char c :: nat) = 127
              \<or> (128 \<le> (of_char c :: nat) \<and> (of_char c :: nat) \<le> 160) \<or> (of_char c :: nat) = 173
        then [CHR 0x5C, CHR ''x'', hex_digit (of_char c div 16), hex_digit (of_char c mod 16)]
      else [c])"

definition str_repr :: "string \<Rightarrow> string" where
  "str_repr s =
     (let quote = (if CHR 0x27 \<in> set s \<and> CHR 0x22 \<notin> set s then CHR 0x22 else CHR 0x27)
      in quote # concat (map (repr_char quote) s) @ [quote])"

text \<open>\<^verbatim>\<open>sep.join(xs)\<close> on strings.\<close>

fun join :: "string \<Rightarrow> string list \<Rightarrow> string" where
  "join sep [] = []"
| "join sep [x] = x"
| "join sep (x # y # ys) = x @ sep @ join sep (y # ys)"

fun py_repr :: "pyval \<Rightarrow> string" where
  "py_repr PNone = ''None''"
| "py_repr (PBool b) = (if b then ''True'' else ''False'')"
| "py_repr (PInt i) = int_str i"
| "py_repr (PStr s) = str_repr s"
| "py_repr (PList xs) = ''['' @ join '', '' (map py_repr xs) @ '']''"
| "py_repr (PDict kvs) =
     ''{'' @ join '', '' (map (\<lambda>(k, v). str_repr k @ '': '' @ py_repr v) kvs) @ ''}''"

text \<open>\<^verbatim>\<open>str(v)\<close>, which is what \<^verbatim>\<open>'%s' % v\<close> inserts.\<close>

definition py_str :: "pyval \<Rightarrow> string" where
  "py_str v = (case v of PStr s \<Rightarrow> s | _ \<Rightarrow> py_repr v)"

text \<open>The text of a \<^verbatim>\<open>KeyError\<close> in an f-string is the \<^verbatim>\<open>repr\<close> of the key.\<close>

fun key_repr :: "key \<Rightarrow> string" where
  "key_repr (KStr k) = str_repr k"
| "key_repr (KInt i) = int_str i"

section \<open>The Tkinter widgets\<close>

text \<open>
  A label keeps the value last given to its \<^verbatim>\<open>text\<close> option and its place in the
  grid; a label that is not on the grid (\<^verbatim>\<open>grid_info() == {}\<close>) has no place.
  Tkinter leaves out of a \<^verbatim>\<open>config\<close> call every option whose value is \<^verbatim>\<open>None\<close>
  (\<^verbatim>\<open>Misc._options\<close>), so \<^verbatim>\<open>config(text=None)\<close> keeps the text.
\<close>

record grid_opts =
  row :: nat
  column :: nat
  columnspan :: nat

record label =
  lbl_text :: pyval
  lbl_grid :: "grid_opts option"

definition new_label :: "string \<Rightarrow> label" where
  "new_label s = \<lparr>lbl_text = PStr s, lbl_grid = None\<rparr>"

definition config_text :: "label \<Rightarrow> pyval \<Rightarrow> label" where
  "config_text l v = (if v = PNone then l else l\<lparr>lbl_text := v\<rparr>)"

definition grid :: "label \<Rightarrow> nat \<Rightarrow> nat \<Rightarrow> nat \<Rightarrow> label" where
  "grid l r c cs = l\<lparr>lbl_grid := Some \<lparr>row = r, column = c, columnspan = cs\<rparr>\<rparr>"

definition grid_remove :: "label \<Rightarrow> label" where
  "grid_remove l = l\<lparr>lbl_grid := None\<rparr>"

definition shown :: "label \<Rightarrow> bool" where
  "shown l = (lbl_grid l \<noteq> None)"

text \<open>The part of \<^verbatim>\<open>DisplayApp\<close> that \<^verbatim>\<open>display_info\<close> reads and writes: the
  window title, the status bar, the exit hint, the clock and the seven lists of labels.\<close>

record display =
  title :: string
  statusbar :: label
  Esc_to_exit :: label
  curtime :: label
  time_disp :: "label list"
  dest_disp :: "label list"
  plat_disp :: "label list"
  expt_disp :: "label list"
  cars_disp :: "label list"
  delayreason_disp :: "label list"
  cancelreason_disp :: "label list"

text \<open>\<^verbatim>\<open>DisplayApp.__init__\<close>: a new root window is titled \<^verbatim>\<open>tk\<close>; each list has
  10 labels, none on the grid.\<close>

definition init_display :: display where
  "init_display =
     \<lparr>title = ''tk'',
      statusbar = new_label [],
      Esc_to_exit = new_label ''Esc to exit'',
      curtime = new_label [],
      time_disp = replicate 10 (new_label []),
      dest_disp = replicate 10 (new_label []),
      plat_disp = replicate 10 (new_label []),
      expt_disp = replicate 10 (new_label []),
      cars_disp = replicate 10 (new_label []),
      delayreason_disp = replicate 10 (new_label []),
      cancelreason_disp = replicate 10 (new_label [])\<rparr>"

definition statusbar_text :: "display \<Rightarrow> string \<Rightarrow> display" where
  "statusbar_text d msg = d\<lparr>statusbar := (statusbar d)\<lparr>lbl_text := PStr msg\<rparr>\<rparr>"

section \<open>Rendering a response: \<^verbatim>\<open>DisplayApp.display_info\<close>\<close>

text \<open>\<^verbatim>\<open>ls[i].config(text=v)\<close> followed by \<^verbatim>\<open>ls[i].grid(row=r, column=c,
  columnspan=cs)\<close>.\<close>

definition write_cell :: "label list \<Rightarrow> nat \<Rightarrow> pyval \<Rightarrow> nat \<Rightarrow> nat \<Rightarrow> nat \<Rightarrow> label list" where
  "write_cell ls i v r c cs = ls[i := grid (config_text (ls ! i) v) r c cs]"

text \<open>One of the five cells of a primary row. \<^verbatim>\<open>ls[i]\<close> is evaluated before the
  text \<open>txt\<close>, so a short list raises \<^verbatim>\<open>IndexError\<close> before any lookup in the
  entry.\<close>

definition cell :: "py_error + pyval \<Rightarrow> nat \<Rightarrow> nat \<Rightarrow> nat \<Rightarrow> label list \<Rightarrow> py_error + label list" where
  "cell txt i r c ls =
     (if length ls \<le> i then Inl IndexError
      else case txt of Inl e \<Rightarrow> Inl e | Inr v \<Rightarrow> Inr (write_cell ls i v r c 1))"

text \<open>The state of the loop body inside \<^verbatim>\<open>try\<close>: the display and
  \<^verbatim>\<open>display_row\<close>. An exception carries the state reached when it was raised.\<close>

type_synonym cursor = "display \<times> nat"
type_synonym step_result = "py_error \<times> cursor + cursor"

definition put_time :: "pyval \<Rightarrow> nat \<Rightarrow> cursor \<Rightarrow> step_result" where
  "put_time services i = (\<lambda>(d, display_row).
     case cell (getitem services (KStr ''std'')) i display_row 0 (time_disp d) of
       Inl e \<Rightarrow> Inl (e, d, display_row)
     | Inr ls \<Rightarrow> Inr (d\<lparr>time_disp := ls\<rparr>, display_row))"

definition put_dest :: "pyval \<Rightarrow> nat \<Rightarrow> cursor \<Rightarrow> step_result" where
  "put_dest services i = (\<lambda>(d, display_row).
     case cell (getpath services
                  [KStr ''destination'', KStr ''location'', KInt 0, KStr ''locationName''])
            i display_row 1 (dest_disp d) of
       Inl e \<Rightarrow> Inl (e, d, display_row)
     | Inr ls \<Rightarrow> Inr (d\<lparr>dest_disp := ls\<rparr>, display_row))"

text \<open>\<^verbatim>\<open>services['platform'] if services['platform'] != None else ''\<close>\<close>

definition platform_text :: "pyval \<Rightarrow> py_error + pyval" where
  "platform_text services =
     (case getitem services (KStr ''platform'') of
        Inl e \<Rightarrow> Inl e
      | Inr p \<Rightarrow> if p \<noteq> PNone then getitem services (KStr ''platform'') else Inr (PStr []))"

definition put_plat :: "pyval \<Rightarrow> nat \<Rightarrow> cursor \<Rightarrow> step_result" where
  "put_plat services i = (\<lambda>(d, display_row).
     case cell (platform_text services) i display_row 2 (plat_disp d) of
       Inl e \<Rightarrow> Inl (e, d, display_row)
     | Inr ls \<Rightarrow> Inr (d\<lparr>plat_disp := ls\<rparr>, display_row))"

definition put_expt :: "pyval \<Rightarrow> nat \<Rightarrow> cursor \<Rightarrow> step_result" where
  "put_expt services i = (\<lambda>(d, display_row).
     case cell (getitem services (KStr ''etd'')) i display_row 3 (expt_disp d) of
       Inl e \<Rightarrow> Inl (e, d, display_row)
     | Inr ls \<Rightarrow> Inr (d\<lparr>expt_disp := ls\<rparr>, display_row))"

definition put_cars :: "pyval \<Rightarrow> nat \<Rightarrow> cursor \<Rightarrow> step_result" where
  "put_cars services i = (\<lambda>(d, display_row).
     case cell (getitem services (KStr ''length'')) i display_row 4 (cars_disp d) of
       Inl e \<Rightarrow> Inl (e, d, display_row)
     | Inr ls \<Rightarrow> Inr (d\<lparr>cars_disp := ls\<rparr>, display_row))"

definition is_not_None :: "py_error + pyval \<Rightarrow> py_error + bool" where
  "is_not_None r = (case r of Inl e \<Rightarrow> Inl e | Inr v \<Rightarrow> Inr (v \<noteq> PNone))"

text \<open>\<^verbatim>\<open>services['isCancelled'] and services['cancelReason'] is not None\<close>: the
  second operand is evaluated only when the first is true.\<close>

definition cancel_cond :: "pyval \<Rightarrow> py_error + bool" where
  "cancel_cond services =
     (case getitem services (KStr ''isCancelled'') of
        Inl e \<Rightarrow> Inl e
      | Inr c \<Rightarrow> if truthy c then is_not_None (getitem services (KStr ''cancelReason''))
                 else Inr False)"

text \<open>\<^verbatim>\<open>services['cancelReason'] is None and services['delayReason'] is not None\<close>\<close>

definition delay_cond :: "pyval \<Rightarrow> py_error + bool" where
  "delay_cond services =
     (case getitem services (KStr ''cancelReason'') of
        Inl e \<Rightarrow> Inl e
      | Inr c \<Rightarrow> if c = PNone then is_not_None (getitem services (KStr ''delayReason''))
                 else Inr False)"

text \<open>A reason line: when the condition holds, \<^verbatim>\<open>display_row += 1\<close> and the reason
  is written on that row, columns 1 to 4; otherwise the label is taken off the grid when
  it is on it.\<close>

definition reason_row ::
  "py_error + bool \<Rightarrow> py_error + pyval \<Rightarrow> nat \<Rightarrow> label list \<times> nat
     \<Rightarrow> py_error \<times> label list \<times> nat + label list \<times> nat" where
  "reason_row cond txt i = (\<lambda>(ls, display_row).
     case cond of
       Inl e \<Rightarrow> Inl (e, ls, display_row)
     | Inr True \<Rightarrow>
         if length ls \<le> i then Inl (IndexError, ls, display_row + 1)
         else (case txt of
                 Inl e \<Rightarrow> Inl (e, ls, display_row + 1)
               | Inr v \<Rightarrow> Inr (write_cell ls i v (display_row + 1) 1 4, display_row + 1))
     | Inr False \<Rightarrow>
         if length ls \<le> i then Inl (IndexError, ls, display_row)
         else if shown (ls ! i) then Inr (ls[i := grid_remove (ls ! i)], display_row)
         else Inr (ls, display_row))"

definition put_cancelreason :: "pyval \<Rightarrow> nat \<Rightarrow> cursor \<Rightarrow> step_result" where
  "put_cancelreason services i = (\<lambda>(d, display_row).
     case reason_row (cancel_cond services) (getitem services (KStr ''cancelReason'')) i
            (cancelreason_disp d, display_row) of
       Inl (e, ls, r) \<Rightarrow> Inl (e, d\<lparr>cancelreason_disp := ls\<rparr>, r)
     | Inr (ls, r) \<Rightarrow> Inr (d\<lparr>cancelreason_disp := ls\<rparr>, r))"

definition put_delayreason :: "pyval \<Rightarrow> nat \<Rightarrow> cursor \<Rightarrow> step_result" where
  "put_delayreason services i = (\<lambda>(d, display_row).
     case reason_row (delay_cond services) (getitem services (KStr ''delayReason'')) i
            (delayreason_disp d, display_row) of
       Inl (e, ls, r) \<Rightarrow> Inl (e, d\<lparr>delayreason_disp := ls\<rparr>, r)
     | Inr (ls, r) \<Rightarrow> Inr (d\<lparr>delayreason_disp := ls\<rparr>, r))"

text \<open>Statements in sequence: the first exception ends the sequence.\<close>

fun run_steps :: "(cursor \<Rightarrow> step_result) list \<Rightarrow> cursor \<Rightarrow> step_result" where
  "run_steps [] s = Inr s"
| "run_steps (f # fs) s = (case f s of Inl e \<Rightarrow> Inl e | Inr s' \<Rightarrow> run_steps fs s')"

text \<open>The body of \<^verbatim>\<open>try\<close> for one entry, at index \<^verbatim>\<open>row_listindex\<close>.\<close>

definition try_statements :: "pyval \<Rightarrow> nat \<Rightarrow> (cursor \<Rightarrow> step_result) list" where
  "try_statements services row_listindex =
     [put_time services row_listindex, put_dest services row_listindex,
      put_plat services row_listindex, put_expt services row_listindex,
      put_cars services row_listindex, put_cancelreason services row_listindex,
      put_delayreason services row_listindex]"

definition try_body :: "pyval \<Rightarrow> nat \<Rightarrow> cursor \<Rightarrow> step_result" where
  "try_body services row_listindex = run_steps (try_statements services row_listindex)"

text \<open>The body of the \<^verbatim>\<open>for\<close> loop: \<^verbatim>\<open>except KeyError\<close> writes the status bar;
  any other exception leaves \<^verbatim>\<open>display_info\<close>. Then \<^verbatim>\<open>display_row += 1\<close> and
  \<^verbatim>\<open>row_listindex += 1\<close>.\<close>

type_synonym loop_state = "display \<times> nat \<times> nat"

definition for_body :: "pyval \<Rightarrow> loop_state \<Rightarrow> py_error \<times> display + loop_state" where
  "for_body services = (\<lambda>(d, display_row, row_listindex).
     case try_body services row_listindex (d, display_row) of
       Inr (d', r) \<Rightarrow> Inr (d', r + 1, row_listindex + 1)
     | Inl (KeyError ke, d', r) \<Rightarrow>
         Inr (statusbar_text d' (''Unknown data key '' @ key_repr ke), r + 1, row_listindex + 1)
     | Inl (e, d', r) \<Rightarrow> Inl (e, d'))"

fun service_loop :: "pyval list \<Rightarrow> loop_state \<Rightarrow> py_error \<times> display + loop_state" where
  "service_loop [] s = Inr s"
| "service_loop (services # rest) s =
     (case for_body services s of Inl e \<Rightarrow> Inl e | Inr s' \<Rightarrow> service_loop rest s')"

text \<open>Blanking the unused rows: the seven labels of a row are taken off the grid when its
  time label is on the grid; the first row whose time label is not ends the loop
  (\<^verbatim>\<open>break\<close>).\<close>

definition blank_item :: "nat \<Rightarrow> display \<Rightarrow> display" where
  "blank_item item d =
     d\<lparr>time_disp := (time_disp d)[item := grid_remove (time_disp d ! item)],
       dest_disp := (dest_disp d)[item := grid_remove (dest_disp d ! item)],
       plat_disp := (plat_disp d)[item := grid_remove (plat_disp d ! item)],
       expt_disp := (expt_disp d)[item := grid_remove (expt_disp d ! item)],
       cars_disp := (cars_disp d)[item := grid_remove (cars_disp d ! item)],
       cancelreason_disp := (cancelreason_disp d)[item := grid_remove (cancelreason_disp d ! item)],
       delayreason_disp := (delayreason_disp d)[item := grid_remove (delayreason_disp d ! item)]\<rparr>"

definition all_indexable :: "nat \<Rightarrow> display \<Rightarrow> bool" where
  "all_indexable item d =
     (item < length (time_disp d) \<and> item < length (dest_disp d) \<and> item < length (plat_disp d)
      \<and> item < length (expt_disp d) \<and> item < length (cars_disp d)
      \<and> item < length (cancelreason_disp d) \<and> item < length (delayreason_disp d))"

fun blank_rows :: "nat list \<Rightarrow> display \<Rightarrow> py_error \<times> display + display" where
  "blank_rows [] d = Inr d"
| "blank_rows (item # items) d =
     (if length (time_disp d) \<le> item then Inl (IndexError, d)
      else if shown (time_disp d ! item)
        then (if all_indexable item d then blank_rows items (blank_item item d)
              else Inl (IndexError, d))
      else Inr d)"

text \<open>The three tests on the response that decide \<^verbatim>\<open>data_OK\<close>.\<close>

definition check_data :: "pyval \<Rightarrow> display \<Rightarrow> py_error \<times> display + display \<times> bool" where
  "check_data GSBR d =
     (if GSBR = PNone then Inr (statusbar_text d ''No data received'', False)
      else case py_in ''trainServices'' GSBR of
        Inl e \<Rightarrow> Inl (e, d)
      | Inr False \<Rightarrow> Inr (statusbar_text d ''No services available'', False)
      | Inr True \<Rightarrow>
          (case getitem GSBR (KStr ''trainServices'') of
             Inl e \<Rightarrow> Inl (e, d)
           | Inr ts \<Rightarrow> if ts = PNone then Inr (statusbar_text d ''No services available'', False)
                       else Inr (d, True)))"

text \<open>\<^verbatim>\<open>if display.root.title() == 'tk': display.root.title('Departures from %s' %
  GSBR['locationName'])\<close>\<close>

definition set_title :: "pyval \<Rightarrow> display \<Rightarrow> py_error \<times> display + display" where
  "set_title GSBR d =
     (if title d = ''tk''
      then (case getitem GSBR (KStr ''locationName'') of
              Inl e \<Rightarrow> Inl (e, d)
            | Inr n \<Rightarrow> Inr (d\<lparr>title := ''Departures from '' @ py_str n\<rparr>))
      else Inr d)"

text \<open>The entries, \<^verbatim>\<open>GSBR['trainServices']['service']\<close>, as the \<^verbatim>\<open>for\<close> loop
  iterates them.\<close>

definition services_of :: "pyval \<Rightarrow> py_error + pyval list" where
  "services_of GSBR =
     (case getpath GSBR [KStr ''trainServices'', KStr ''service''] of
        Inl e \<Rightarrow> Inl e
      | Inr v \<Rightarrow> py_iter v)"

text \<open>The branch \<^verbatim>\<open>if data_OK:\<close>. \<open>service_numrows\<close> is
  \<^verbatim>\<open>int(config['display']['rows'])\<close>, a parameter here; the result is the display and
  \<^verbatim>\<open>display_row\<close>.\<close>

definition populate :: "int \<Rightarrow> pyval \<Rightarrow> display \<Rightarrow> py_error \<times> display + display \<times> nat" where
  "populate service_numrows GSBR d =
     (case set_title GSBR d of
        Inl e \<Rightarrow> Inl e
      | Inr d1 \<Rightarrow>
          (case services_of GSBR of
             Inl e \<Rightarrow> Inl (e, d1)
           | Inr entries \<Rightarrow>
               (case service_loop entries (d1, 2, 0) of
                  Inl e \<Rightarrow> Inl e
                | Inr (d2, display_row, row_listindex) \<Rightarrow>
                    (case (if int row_listindex < service_numrows
                           then blank_rows [row_listindex ..< nat service_numrows] d2
                           else Inr d2) of
                       Inl e \<Rightarrow> Inl e
                     | Inr d3 \<Rightarrow> Inr (d3, display_row)))))"

text \<open>The status bar and the exit hint go on the row after the last line.\<close>

definition place_status :: "display \<Rightarrow> nat \<Rightarrow> display" where
  "place_status d display_row =
     d\<lparr>statusbar := grid (statusbar d) display_row 0 4,
       Esc_to_exit := grid (Esc_to_exit d) display_row 4 1\<rparr>"

definition display_info :: "int \<Rightarrow> pyval \<Rightarrow> display \<Rightarrow> py_error \<times> display + display" where
  "display_info service_numrows GSBR d =
     (case check_data GSBR d of
        Inl e \<Rightarrow> Inl e
      | Inr (d1, data_OK) \<Rightarrow>
          (case (if data_OK then populate service_numrows GSBR d1 else Inr (d1, 2)) of
             Inl e \<Rightarrow> Inl e
           | Inr (d2, display_row) \<Rightarrow> Inr (place_status d2 display_row)))"

section \<open>The refresh cycle and the event loop\<close>

text \<open>
  The program state outside the display: the global \<^verbatim>\<open>Running\<close>, the callbacks
  waiting in Tk's \<^verbatim>\<open>after\<close> queue with their delays, the bodies of the message boxes
  shown so far, whether the root window has been destroyed, and how many times
  \<^verbatim>\<open>GetDepartureBoard\<close> has been called.
\<close>

datatype callback = cb_update_display | cb_update_time

record world =
  disp :: display
  Running :: bool
  timers :: "(nat \<times> callback) list"
  dialogs :: "string list"
  destroyed :: bool
  calls :: nat

text \<open>What the call of the web service does: it raises an exception with a message, or
  it returns an object.\<close>

datatype fetch = Raised string | Returned pyval

text \<open>\<^verbatim>\<open>OpenLDBWSApp.getServiceInfo\<close>\<close>

definition getServiceInfo :: "fetch \<Rightarrow> world \<Rightarrow> pyval \<times> world" where
  "getServiceInfo f w =
     (case f of
        Raised ze \<Rightarrow>
          (PNone, w\<lparr>calls := calls w + 1,
                     disp := statusbar_text (disp w) (''Web service error: '' @ ze)\<rparr>)
      | Returned response \<Rightarrow>
          (response, w\<lparr>calls := calls w + 1, disp := statusbar_text (disp w) ''OK''\<rparr>))"

text \<open>\<^verbatim>\<open>'\n\n'.join(dict['_value_1'] for dict in GSBRtodisplay['nrccMessages']['message'])\<close>:
  the generator is run to its end first, then \<^verbatim>\<open>join\<close> wants every item to be a
  string.\<close>

fun lookup_all :: "key \<Rightarrow> pyval list \<Rightarrow> py_error + pyval list" where
  "lookup_all k [] = Inr []"
| "lookup_all k (x # xs) =
     (case getitem x k of
        Inl e \<Rightarrow> Inl e
      | Inr v \<Rightarrow> (case lookup_all k xs of Inl e \<Rightarrow> Inl e | Inr vs \<Rightarrow> Inr (v # vs)))"

fun str_items :: "pyval list \<Rightarrow> py_error + string list" where
  "str_items [] = Inr []"
| "str_items (PStr s # xs) =
     (case str_items xs of Inl e \<Rightarrow> Inl e | Inr ss \<Rightarrow> Inr (s # ss))"
| "str_items (v # xs) = Inl TypeError"

definition nrcc_text :: "pyval \<Rightarrow> py_error + string" where
  "nrcc_text GSBR =
     (case getpath GSBR [KStr ''nrccMessages'', KStr ''message''] of
        Inl e \<Rightarrow> Inl e
      | Inr m \<Rightarrow>
          (case py_iter m of
             Inl e \<Rightarrow> Inl e
           | Inr items \<Rightarrow>
               (case lookup_all (KStr ''_value_1'') items of
                  Inl e \<Rightarrow> Inl e
                | Inr vs \<Rightarrow>
                    (case str_items vs of
                       Inl e \<Rightarrow> Inl e
                     | Inr ss \<Rightarrow> Inr (join [CHR 0x0A, CHR 0x0A] ss)))))"

text \<open>\<^verbatim>\<open>if GSBRtodisplay != None and display_messages and
  GSBRtodisplay['nrccMessages'] != None: messagebox.showinfo(...)\<close>\<close>

definition show_messages :: "bool \<Rightarrow> pyval \<Rightarrow> world \<Rightarrow> py_error \<times> world + world" where
  "show_messages display_messages GSBR w =
     (if GSBR \<noteq> PNone \<and> display_messages
      then (case getitem GSBR (KStr ''nrccMessages'') of
              Inl e \<Rightarrow> Inl (e, w)
            | Inr m \<Rightarrow>
                if m \<noteq> PNone
                then (case nrcc_text GSBR of
                        Inl e \<Rightarrow> Inl (e, w)
                      | Inr body \<Rightarrow> Inr (w\<lparr>dialogs := dialogs w @ [body]\<rparr>))
                else Inr w)
      else Inr w)"

text \<open>\<^verbatim>\<open>update_display\<close>. An exception that leaves it carries the state reached.\<close>

definition update_display ::
  "int \<Rightarrow> bool \<Rightarrow> fetch \<Rightarrow> world \<Rightarrow> py_error \<times> world + world" where
  "update_display service_numrows display_messages f w =
     (case getServiceInfo f w of
        (GSBRtodisplay, w1) \<Rightarrow>
          (case show_messages display_messages GSBRtodisplay w1 of
             Inl e \<Rightarrow> Inl e
           | Inr w2 \<Rightarrow>
               (case display_info service_numrows GSBRtodisplay (disp w2) of
                  Inl (e, d) \<Rightarrow> Inl (e, w2\<lparr>disp := d\<rparr>)
                | Inr d \<Rightarrow>
                    if Running w2
                    then Inr (w2\<lparr>disp := d, timers := timers w2 @ [(15000, cb_update_display)]\<rparr>)
                    else Inr (w2\<lparr>disp := d, destroyed := True\<rparr>))))"

text \<open>\<^verbatim>\<open>DisplayApp.update_time\<close>; \<open>now\<close> is the formatted time of day.\<close>

definition update_time :: "string \<Rightarrow> world \<Rightarrow> world" where
  "update_time now w =
     (let w1 = w\<lparr>disp := (disp w)\<lparr>curtime := grid (config_text (curtime (disp w)) (PStr now)) 0 3 2\<rparr>\<rparr>
      in if Running w1 then w1\<lparr>timers := timers w1 @ [(1000, cb_update_time)]\<rparr> else w1)"

definition stop_msg :: string where
  "stop_msg = ''Stopping...''"

definition handle_keyevent :: "nat \<Rightarrow> world \<Rightarrow> world" where
  "handle_keyevent keycode w =
     (if keycode = 9
      then w\<lparr>Running := False, disp := statusbar_text (disp w) stop_msg\<rparr>
      else w)"

definition handle_windowclose :: "world \<Rightarrow> world" where
  "handle_windowclose w = w\<lparr>Running := False, disp := statusbar_text (disp w) stop_msg\<rparr>"

text \<open>
  One turn of \<^verbatim>\<open>mainloop\<close>. An event is a key press, a request to close the window, or
  the firing of the pending timer at a position of the queue, which takes the timer off
  the queue and runs its callback (\<^verbatim>\<open>after(15000, update_display)\<close> passes no argument,
  so \<^verbatim>\<open>display_messages\<close> has its default \<^verbatim>\<open>False\<close>). The event brings what the
  callback reads from outside: the outcome of the web service call, the time of day.
  An exception raised in a callback is reported by Tk and the loop goes on with the state
  reached. Once the root window is destroyed the loop has ended.
\<close>

datatype event = Key nat | WindowClose | Fire nat fetch string

definition remove_nth :: "nat \<Rightarrow> 'a list \<Rightarrow> 'a list" where
  "remove_nth n xs = take n xs @ drop (Suc n) xs"

definition run_callback :: "int \<Rightarrow> callback \<Rightarrow> fetch \<Rightarrow> string \<Rightarrow> world \<Rightarrow> world" where
  "run_callback service_numrows cb f now w =
     (case cb of
        cb_update_time \<Rightarrow> update_time now w
      | cb_update_display \<Rightarrow>
          (case update_display service_numrows False f w of Inl (e, w') \<Rightarrow> w' | Inr w' \<Rightarrow> w'))"

definition handle :: "int \<Rightarrow> event \<Rightarrow> world \<Rightarrow> world" where
  "handle service_numrows ev w =
     (if destroyed w then w
      else case ev of
        Key keycode \<Rightarrow> handle_keyevent keycode w
      | WindowClose \<Rightarrow> handle_windowclose w
      | Fire n f now \<Rightarrow>
          if n < length (timers w)
          then run_callback service_numrows (snd (timers w ! n)) f now
                 (w\<lparr>timers := remove_nth n (timers w)\<rparr>)
          else w)"

fun mainloop :: "int \<Rightarrow> event list \<Rightarrow> world \<Rightarrow> world" where
  "mainloop service_numrows [] w = w"
| "mainloop service_numrows (ev # evs) w = mainloop service_numrows evs (handle service_numrows ev w)"

text \<open>The state when the main code starts, and the main code up to \<^verbatim>\<open>mainloop\<close>:
  \<^verbatim>\<open>update_display(display_messages = True)\<close>, then \<^verbatim>\<open>display.update_time()\<close>. An
  exception in the first call ends the program.\<close>

definition init_world :: world where
  "init_world =
     \<lparr>disp = init_display, Running = True, timers = [], dialogs = [], destroyed = False,
      calls = 0\<rparr>"

definition startup :: "int \<Rightarrow> fetch \<Rightarrow> string \<Rightarrow> py_error \<times> world + world" where
  "startup service_numrows f now =
     (case update_display service_numrows True f init_world of
        Inl e \<Rightarrow> Inl e
      | Inr w \<Rightarrow> Inr (update_time now w))"

section \<open>Notions used to state the properties\<close>

text \<open>The exception of a result, and the state a result carries either way.\<close>

definition raised :: "py_error \<times> 'a + 'b \<Rightarrow> py_error option" where
  "raised r = (case r of Inl (e, x) \<Rightarrow> Some e | Inr y \<Rightarrow> None)"

definition carried :: "py_error \<times> 'a + 'a \<Rightarrow> 'a" where
  "carried r = (case r of Inl (e, x) \<Rightarrow> x | Inr x \<Rightarrow> x)"

definition err :: "py_error + 'a \<Rightarrow> py_error option" where
  "err r = (case r of Inl e \<Rightarrow> Some e | Inr v \<Rightarrow> None)"

text \<open>The seven lists as \<^verbatim>\<open>__init__\<close> makes them.\<close>

definition lists_ok :: "display \<Rightarrow> bool" where
  "lists_ok d =
     (length (time_disp d) = 10 \<and> length (dest_disp d) = 10 \<and> length (plat_disp d) = 10
      \<and> length (expt_disp d) = 10 \<and> length (cars_disp d) = 10
      \<and> length (delayreason_disp d) = 10 \<and> length (cancelreason_disp d) = 10)"

text \<open>The labels of row slot \<open>j\<close>: the five of the primary row, and the two reason
  lines.\<close>

definition primary :: "display \<Rightarrow> nat \<Rightarrow> label list" where
  "primary d j = [time_disp d ! j, dest_disp d ! j, plat_disp d ! j, expt_disp d ! j, cars_disp d ! j]"

definition slot :: "display \<Rightarrow> nat \<Rightarrow> label list" where
  "slot d j = primary d j @ [cancelreason_disp d ! j, delayreason_disp d ! j]"

definition hidden_slot :: "display \<Rightarrow> nat \<Rightarrow> bool" where
  "hidden_slot d j = list_all (\<lambda>l. \<not> shown l) (slot d j)"

text \<open>The first exception among the lookups of \<^verbatim>\<open>try\<close>, in the order the body makes
  them; an entry with none renders completely.\<close>

fun first_error :: "py_error option list \<Rightarrow> py_error option" where
  "first_error [] = None"
| "first_error (None # es) = first_error es"
| "first_error (Some e # es) = Some e"

definition entry_error :: "pyval \<Rightarrow> py_error option" where
  "entry_error services =
     first_error
       [err (getitem services (KStr ''std'')),
        err (getpath services
               [KStr ''destination'', KStr ''location'', KInt 0, KStr ''locationName'']),
        err (platform_text services),
        err (getitem services (KStr ''etd'')),
        err (getitem services (KStr ''length'')),
        err (cancel_cond services),
        err (delay_cond services)]"

definition entry_ok :: "pyval \<Rightarrow> bool" where
  "entry_ok services = (entry_error services = None)"

text \<open>The rows of the window an entry takes: its primary row and a reason line if one
  is written.\<close>

definition entry_rows :: "pyval \<Rightarrow> nat" where
  "entry_rows services =
     1 + (if cancel_cond services = Inr True then 1 else 0)
       + (if delay_cond services = Inr True then 1 else 0)"

definition start_row :: "pyval list \<Rightarrow> nat \<Rightarrow> nat" where
  "start_row entries k = 2 + sum_list (map entry_rows (take k entries))"

text \<open>A response that passes the three tests of \<^verbatim>\<open>display_info\<close>, has a station name
  and a list of entries, all of which render completely.\<close>

definition valid_response :: "pyval \<Rightarrow> pyval list \<Rightarrow> bool" where
  "valid_response GSBR entries =
     (GSBR \<noteq> PNone \<and> py_in ''trainServices'' GSBR = Inr True
      \<and> err (getitem GSBR (KStr ''locationName'')) = None
      \<and> getitem GSBR (KStr ''trainServices'') \<noteq> Inr PNone
      \<and> services_of GSBR = Inr entries \<and> list_all entry_ok entries)"

text \<open>The assumption of the blanking loop: the time labels on the grid are those of a
  first part of the slots, and a slot whose time label is off the grid has all its labels
  off the grid.\<close>

definition contiguous :: "display \<Rightarrow> bool" where
  "contiguous d =
     (list_all (\<lambda>j. list_all (\<lambda>k. shown (time_disp d ! j) \<longrightarrow> shown (time_disp d ! k)) [0 ..< j])
        [0 ..< 10]
      \<and> list_all (\<lambda>j. shown (time_disp d ! j) \<or> hidden_slot d j) [0 ..< 10])"

text \<open>Consecutive refreshes of the display; an exception ends the sequence, since
  \<^verbatim>\<open>update_display\<close> then does not schedule itself again.\<close>

fun refresh_seq :: "int \<Rightarrow> pyval list \<Rightarrow> display \<Rightarrow> display" where
  "refresh_seq service_numrows [] d = d"
| "refresh_seq service_numrows (GSBR # rest) d =
     (case display_info service_numrows GSBR d of
        Inl (e, d') \<Rightarrow> d'
      | Inr d' \<Rightarrow> refresh_seq service_numrows rest d')"

text \<open>The refresh timers waiting in the queue.\<close>

definition refresh_pending :: "world \<Rightarrow> nat" where
  "refresh_pending w = length (filter (\<lambda>t. snd t = cb_update_display) (timers w))"

subsection \<open>Example responses\<close>

definition mk_service ::
  "string \<Rightarrow> string \<Rightarrow> pyval \<Rightarrow> string \<Rightarrow> pyval \<Rightarrow> bool \<Rightarrow> pyval \<Rightarrow> pyval \<Rightarrow> pyval" where
  "mk_service std dest plat etd len canc cancelReason delayReason =
     PDict [(''std'', PStr std),
            (''destination'', PDict [(''location'', PList [PDict [(''locationName'', PStr dest)]])]),
            (''platform'', plat), (''etd'', PStr etd), (''length'', len),
            (''isCancelled'', PBool canc), (''cancelReason'', cancelReason),
            (''delayReason'', delayReason)]"

definition mk_response :: "string \<Rightarrow> pyval list \<Rightarrow> pyval" where
  "mk_response name entries =
     PDict [(''locationName'', PStr name),
            (''trainServices'', PDict [(''service'', PList entries)]),
            (''nrccMessages'', PNone)]"

text \<open>The entry of the example in the specification, a cancelled service with both
  reasons, a running service that carries both reasons, and an entry without the key
  \<^verbatim>\<open>std\<close>.\<close>

definition on_time :: pyval where
  "on_time = mk_service ''10:15'' ''Paddington'' (PStr ''4'') ''On time'' (PStr ''8'') False PNone PNone"

definition cancelled :: pyval where
  "cancelled = mk_service ''10:20'' ''Oxford'' PNone ''Cancelled'' PNone True
                 (PStr ''a fault'') (PStr ''a late crew'')"

definition both_reasons :: pyval where
  "both_reasons = mk_service ''10:25'' ''Bath'' PNone ''10:40'' PNone False
                    (PStr ''a fault'') (PStr ''a late crew'')"


definition with_notices :: pyval where
  "with_notices =
     PDict [(''locationName'', PStr ''Reading''), (''trainServices'', PNone),
            (''nrccMessages'',
               PDict [(''message'',
                  PList [PDict [(''_value_1'', PStr ''Lift out of order'')],
                         PDict [(''_value_1'', PStr ''Buses replace trains'')]])])]"

text \<open>The seven labels of a slot after an entry that renders completely is written on
  row \<open>r\<close>, from the labels \<open>ls\<close> the slot had: the five cells on row \<open>r\<close>, and each
  reason line either on row \<open>r + 1\<close> or off the grid.\<close>

definition render_slot :: "pyval \<Rightarrow> nat \<Rightarrow> label list \<Rightarrow> label list" where
  "render_slot services r ls =
     [grid (config_text (ls ! 0) (projr (getitem services (KStr ''std'')))) r 0 1,
      grid (config_text (ls ! 1) (projr (getpath services
              [KStr ''destination'', KStr ''location'', KInt 0, KStr ''locationName'']))) r 1 1,
      grid (config_text (ls ! 2) (projr (platform_text services))) r 2 1,
      grid (config_text (ls ! 3) (projr (getitem services (KStr ''etd'')))) r 3 1,
      grid (config_text (ls ! 4) (projr (getitem services (KStr ''length'')))) r 4 1,
      (if cancel_cond services = Inr True
       then grid (config_text (ls ! 5) (projr (getitem services (KStr ''cancelReason'')))) (r + 1) 1 4
       else grid_remove (ls ! 5)),
      (if delay_cond services = Inr True
       then grid (config_text (ls ! 6) (projr (getitem services (KStr ''delayReason'')))) (r + 1) 1 4
       else grid_remove (ls ! 6))]"




text \<open>A delayed service with a delay reason only, and the display after a first refresh
  that showed the cancelled service, or the delayed one.\<close>

definition delayed :: pyval where
  "delayed = mk_service ''10:30'' ''York'' (PStr ''2'') ''10:45'' (PStr ''4'') False PNone
               (PStr ''a late crew'')"

definition board_cancelled :: display where
  "board_cancelled = carried (display_info 10 (mk_response ''Reading'' [cancelled]) init_display)"

definition board_delayed :: display where
  "board_delayed = carried (display_info 10 (mk_response ''Reading'' [delayed]) init_display)"

text \<open>An entry without the keys from \<^verbatim>\<open>platform\<close> on.\<close>

definition no_platform :: pyval where
  "no_platform = PDict [(''std'', PStr ''11:00''),
     (''destination'', PDict [(''location'', PList [PDict [(''locationName'', PStr ''Ely'')]])]),
     (''etd'', PStr ''11:05'')]"


text \<open>Responses with eleven and with ten entries.\<close>

definition eleven_entries :: pyval where
  "eleven_entries = mk_response ''Reading'' (replicate 11 on_time)"

definition ten_entries :: pyval where
  "ten_entries = mk_response ''Reading'' (replicate 10 on_time)"

text \<open>The display after a first refresh that showed one entry, and a response whose
  \<^verbatim>\<open>trainServices\<close> is null.\<close>

definition board_one :: display where
  "board_one = carried (display_info 10 (mk_response ''Reading'' [on_time]) init_display)"

definition null_services :: pyval where
  "null_services = PDict [(''locationName'', PStr ''Reading''), (''trainServices'', PNone),
                          (''nrccMessages'', PNone)]"

text \<open>The program after a start without data, after Escape is then pressed, and after the
  clock timer has then fired.\<close>

definition started_world :: world where
  "started_world = carried (startup 10 (Returned PNone) ''12:00:00'')"

definition stopped_world :: world where
  "stopped_world = mainloop 10 [Key 9] started_world"

definition clock_ticked_world :: world where
  "clock_ticked_world = mainloop 10 [Fire 1 (Returned PNone) ''12:00:01''] stopped_world"

text \<open>What a part of a refresh may change: the labels of the slots in \<open>S\<close> and the
  status bar; the title, the exit hint, the clock and the lengths of the lists stay.\<close>

definition frame_on :: "nat set \<Rightarrow> display \<Rightarrow> display \<Rightarrow> bool" where
  "frame_on S d d' =
     (title d' = title d \<and> Esc_to_exit d' = Esc_to_exit d \<and> curtime d' = curtime d
      \<and> length (time_disp d') = length (time_disp d)
      \<and> length (dest_disp d') = length (dest_disp d)
      \<and> length (plat_disp d') = length (plat_disp d)
      \<and> length (expt_disp d') = length (expt_disp d)
      \<and> length (cars_disp d') = length (cars_disp d)
      \<and> length (cancelreason_disp d') = length (cancelreason_disp d)
      \<and> length (delayreason_disp d') = length (delayreason_disp d)
      \<and> (\<forall>j. j \<notin> S \<longrightarrow> slot d' j = slot d j))"

text \<open>A statement of the loop body that changes at most the slots in \<open>S\<close> and
  never moves \<^verbatim>\<open>display_row\<close> back.\<close>

definition step_ok :: "nat set \<Rightarrow> (cursor \<Rightarrow> step_result) \<Rightarrow> bool" where
  "step_ok S f = (\<forall>d r d' r' e. f (d, r) = Inr (d', r') \<or> f (d, r) = Inl (e, d', r')
      \<longrightarrow> frame_on S d d' \<and> r \<le> r' \<and> statusbar d' = statusbar d)"

text \<open>The response passes the three tests that decide \<^verbatim>\<open>data_OK\<close>.\<close>

definition has_data :: "pyval \<Rightarrow> bool" where
  "has_data GSBR =
     (GSBR \<noteq> PNone \<and> py_in ''trainServices'' GSBR = Inr True
      \<and> (case getitem GSBR (KStr ''trainServices'') of Inl e \<Rightarrow> False | Inr ts \<Rightarrow> ts \<noteq> PNone))"

section \<open>Basic facts\<close>

lemma statusbar_text_twice [simp]: "statusbar_text (statusbar_text d a) b = statusbar_text d b"
  by (simp add: statusbar_text_def)

lemma slot_place_status [simp]: "slot (place_status d r) j = slot d j"
  by (simp add: slot_def primary_def place_status_def)

lemma slot_statusbar_text [simp]: "slot (statusbar_text d m) j = slot d j"
  by (simp add: slot_def primary_def statusbar_text_def)

lemma title_place_status [simp]: "title (place_status d r) = title d"
  by (simp add: place_status_def)

lemma title_statusbar_text [simp]: "title (statusbar_text d m) = title d"
  by (simp add: statusbar_text_def)

lemma getitem_str_Inr_dict: "getitem G (KStr k) = Inr v \<Longrightarrow> py_in k G = Inr True"
  by (cases G) (auto split: option.splits dest!: map_of_SomeD intro: rev_image_eqI)

section \<open>A response without data\<close>

lemma check_data_no_data:
  assumes "GSBR = PNone \<or> py_in ''trainServices'' GSBR = Inr False
           \<or> getitem GSBR (KStr ''trainServices'') = Inr PNone"
  shows "check_data GSBR d =
     Inr (statusbar_text d
            (if GSBR = PNone then ''No data received'' else ''No services available''), False)"
  using assms getitem_str_Inr_dict[of GSBR "''trainServices''" PNone]
  by (auto simp: check_data_def)

lemma display_info_None:
  "display_info rows PNone d = Inr (place_status (statusbar_text d ''No data received'') 2)"
  by (simp add: display_info_def check_data_def)

text \<open>Without data the table is not populated and nothing is blanked: every row slot and
  the title are left as they were.\<close>

lemma no_data_keeps_rows:
  assumes "GSBR = PNone \<or> py_in ''trainServices'' GSBR = Inr False
           \<or> getitem GSBR (KStr ''trainServices'') = Inr PNone"
  shows "display_info rows GSBR d =
           Inr (place_status (statusbar_text d
                  (if GSBR = PNone then ''No data received'' else ''No services available'')) 2)
         \<and> slot (carried (display_info rows GSBR d)) j = slot d j
         \<and> title (carried (display_info rows GSBR d)) = title d"
  using check_data_no_data[OF assms, of d]
  by (simp add: display_info_def carried_def)

lemma board_one_facts:
  "raised (display_info 10 (mk_response ''Reading'' [on_time]) init_display) = None
   \<and> lbl_grid (time_disp board_one ! 0) = Some \<lparr>row = 2, column = 0, columnspan = 1\<rparr>"
  unfolding board_one_def by code_simp

lemma display_info_null_services:
  "display_info rows null_services d
     = Inr (place_status (statusbar_text d ''No services available'') 2)"
  by (simp add: display_info_def check_data_def null_services_def)

lemma empty_list_facts:
  "lbl_text (statusbar (carried (display_info 10 (mk_response ''Reading'' [])
                                    (statusbar_text board_one ''OK'')))) = PStr ''OK''
   \<and> hidden_slot (carried (display_info 10 (mk_response ''Reading'' [])
                             (statusbar_text board_one ''OK''))) 0"
  unfolding board_one_def by code_simp

text \<open>
  C3 fails on the code. After a refresh that showed one entry on row 2, a null response
  writes "No data received" and a response with a null \<^verbatim>\<open>trainServices\<close> writes
  "No services available", but the rows are not hidden: the blanking loop is inside
  \<^verbatim>\<open>if data_OK:\<close>, so the time label of slot 0 stays on row 2, where the status bar is
  then placed as well. A response with an empty entry list passes the data tests: no
  message is written (the status bar keeps the "OK" of \<^verbatim>\<open>getServiceInfo\<close>), and this
  path does hide the rows.
\<close>

theorem no_data_leaves_stale_rows:
  "raised (display_info 10 (mk_response ''Reading'' [on_time]) init_display) = None
   \<and> lbl_grid (time_disp board_one ! 0) = Some \<lparr>row = 2, column = 0, columnspan = 1\<rparr>
   \<and> raised (display_info 10 PNone board_one) = None
   \<and> lbl_text (statusbar (carried (display_info 10 PNone board_one))) = PStr ''No data received''
   \<and> lbl_grid (statusbar (carried (display_info 10 PNone board_one)))
        = Some \<lparr>row = 2, column = 0, columnspan = 4\<rparr>
   \<and> lbl_grid (time_disp (carried (display_info 10 PNone board_one)) ! 0)
        = Some \<lparr>row = 2, column = 0, columnspan = 1\<rparr>
   \<and> raised (display_info 10 null_services board_one) = None
   \<and> lbl_text (statusbar (carried (display_info 10 null_services board_one)))
        = PStr ''No services available''
   \<and> lbl_grid (time_disp (carried (display_info 10 null_services board_one)) ! 0)
        = Some \<lparr>row = 2, column = 0, columnspan = 1\<rparr>
   \<and> lbl_text (statusbar (carried (display_info 10 (mk_response ''Reading'' [])
                                      (statusbar_text board_one ''OK'')))) = PStr ''OK''
   \<and> hidden_slot (carried (display_info 10 (mk_response ''Reading'' [])
                             (statusbar_text board_one ''OK''))) 0"
  using board_one_facts empty_list_facts
  by (simp add: display_info_None display_info_null_services carried_def raised_def
      place_status_def statusbar_text_def grid_def)


section \<open>A failed call of the web service\<close>

text \<open>
  C5. When the call of the web service raises an exception, \<^verbatim>\<open>getServiceInfo\<close> returns
  \<^verbatim>\<open>None\<close>, the cycle is the no-data case and, while \<^verbatim>\<open>Running\<close> holds, the next
  refresh is scheduled. The status bar ends the cycle reading "No data received": the
  text "Web service error: ..." written by \<^verbatim>\<open>getServiceInfo\<close> is overwritten by
  \<^verbatim>\<open>display_info\<close> in the same callback.
\<close>

theorem fetch_failure_cycle:
  "update_display rows display_messages (Raised ze) w =
     Inr (w\<lparr>calls := calls w + 1,
            disp := place_status (statusbar_text (disp w) ''No data received'') 2,
            timers := (if Running w then timers w @ [(15000, cb_update_display)] else timers w),
            destroyed := (if Running w then destroyed w else True)\<rparr>)"
  by (simp add: update_display_def getServiceInfo_def show_messages_def display_info_None)

section \<open>The dialog of notice messages\<close>

lemma show_messages_False [simp]: "show_messages False G w = Inr w"
  by (simp add: show_messages_def)

lemma dialogs_update_display_False:
  "dialogs (carried (update_display rows False f w)) = dialogs w"
  by (auto simp: update_display_def getServiceInfo_def carried_def
      split: fetch.splits sum.splits prod.splits)

lemma dialogs_update_time [simp]: "dialogs (update_time now w) = dialogs w"
  by (simp add: update_time_def Let_def)

lemma dialogs_handle: "dialogs (handle rows ev w) = dialogs w"
  using dialogs_update_display_False[of rows]
  by (auto simp: handle_def run_callback_def handle_keyevent_def handle_windowclose_def
      carried_def split: event.splits callback.splits sum.splits prod.splits)

lemma dialogs_mainloop: "dialogs (mainloop rows evs w) = dialogs w"
  by (induction evs arbitrary: w) (simp_all add: dialogs_handle)

lemma dialogs_update_display_True:
  assumes "update_display rows True f init_world = Inr w"
  shows "length (dialogs w) \<le> 1 \<and>
         (dialogs w \<noteq> [] \<longleftrightarrow>
            (\<exists>r m. f = Returned r \<and> r \<noteq> PNone
               \<and> getitem r (KStr ''nrccMessages'') = Inr m \<and> m \<noteq> PNone))"
  using assms
  by (auto simp: update_display_def getServiceInfo_def show_messages_def init_world_def
      split: fetch.splits sum.splits prod.splits if_splits)

text \<open>
  C8. Whatever events follow the start of the program, the message boxes shown are those
  of the first call \<^verbatim>\<open>update_display(display_messages = True)\<close>: at most one, and one
  exactly when the first response is not null and its \<^verbatim>\<open>nrccMessages\<close> is not null.
  No later refresh shows a dialog, whatever its response carries.
\<close>

theorem notice_dialog_only_at_startup:
  assumes "startup rows f now = Inr w"
  shows "dialogs (mainloop rows evs w) = dialogs w \<and> length (dialogs w) \<le> 1 \<and>
         (dialogs w \<noteq> [] \<longleftrightarrow>
            (\<exists>r m. f = Returned r \<and> r \<noteq> PNone
               \<and> getitem r (KStr ''nrccMessages'') = Inr m \<and> m \<noteq> PNone))"
proof -
  from assms obtain w0 where w0: "update_display rows True f init_world = Inr w0"
    and w: "w = update_time now w0"
    by (auto simp: startup_def split: sum.splits)
  from dialogs_update_display_True[OF w0] w show ?thesis
    by (simp add: dialogs_mainloop)
qed

theorem notice_dialog_only_at_startup_witness:
  "dialogs (mainloop 10 [Fire 0 (Returned with_notices) ''12:00:15'']
              (projr (startup 10 (Returned with_notices) ''12:00:00'')))
     = dialogs (projr (startup 10 (Returned with_notices) ''12:00:00''))
   \<and> dialogs (projr (startup 10 (Returned with_notices) ''12:00:00''))
     = [''Lift out of order'' @ [CHR 0x0A, CHR 0x0A] @ ''Buses replace trains'']"
proof -
  have "\<not> isl (startup 10 (Returned with_notices) ''12:00:00'')"
    by (simp add: startup_def update_display_def getServiceInfo_def show_messages_def
        with_notices_def nrcc_text_def display_info_def check_data_def init_world_def)
  then have "startup 10 (Returned with_notices) ''12:00:00''
               = Inr (projr (startup 10 (Returned with_notices) ''12:00:00''))"
    by simp
  from notice_dialog_only_at_startup[OF this]
  have "dialogs (mainloop 10 [Fire 0 (Returned with_notices) ''12:00:15'']
              (projr (startup 10 (Returned with_notices) ''12:00:00'')))
     = dialogs (projr (startup 10 (Returned with_notices) ''12:00:00''))"
    by blast
  moreover have "dialogs (projr (startup 10 (Returned with_notices) ''12:00:00''))
     = [''Lift out of order'' @ [CHR 0x0A, CHR 0x0A] @ ''Buses replace trains'']"
    by (simp add: startup_def update_display_def getServiceInfo_def show_messages_def
        with_notices_def nrcc_text_def display_info_def check_data_def init_world_def
        update_time_def Let_def)
  ultimately show ?thesis by simp
qed

section \<open>What a refresh leaves unchanged\<close>

lemma frame_on_refl [simp]: "frame_on S d d"
  by (simp add: frame_on_def)

lemma frame_on_trans: "frame_on S d d' \<Longrightarrow> frame_on T d' d'' \<Longrightarrow> frame_on (S \<union> T) d d''"
  by (simp add: frame_on_def)

lemma frame_on_mono: "frame_on S d d' \<Longrightarrow> S \<subseteq> T \<Longrightarrow> frame_on T d d'"
  by (auto simp: frame_on_def)

lemma frame_on_statusbar_text [simp]: "frame_on S d (statusbar_text d' m) = frame_on S d d'"
  by (simp add: frame_on_def statusbar_text_def slot_def primary_def)

lemma cell_length: "cell txt i r c ls = Inr ls' \<Longrightarrow> length ls' = length ls \<and> (\<forall>j. j \<noteq> i \<longrightarrow> ls' ! j = ls ! j)"
  by (auto simp: cell_def write_cell_def split: if_splits sum.splits)

lemma reason_row_frame:
  "reason_row cond txt i (ls, r) = Inr (ls', r') \<or> reason_row cond txt i (ls, r) = Inl (e, ls', r')
   \<Longrightarrow> length ls' = length ls \<and> (\<forall>j. j \<noteq> i \<longrightarrow> ls' ! j = ls ! j) \<and> r \<le> r'"
  by (auto simp: reason_row_def write_cell_def split: if_splits sum.splits bool.splits)

lemma put_time_frame:
  "put_time s i (d, r) = Inr (d', r') \<or> put_time s i (d, r) = Inl (e, d', r')
   \<Longrightarrow> frame_on {i} d d' \<and> r' = r \<and> statusbar d' = statusbar d"
  by (auto simp: put_time_def frame_on_def slot_def primary_def split: sum.splits dest!: cell_length)

lemma put_dest_frame:
  "put_dest s i (d, r) = Inr (d', r') \<or> put_dest s i (d, r) = Inl (e, d', r')
   \<Longrightarrow> frame_on {i} d d' \<and> r' = r \<and> statusbar d' = statusbar d"
  by (auto simp: put_dest_def frame_on_def slot_def primary_def split: sum.splits dest!: cell_length)

lemma put_plat_frame:
  "put_plat s i (d, r) = Inr (d', r') \<or> put_plat s i (d, r) = Inl (e, d', r')
   \<Longrightarrow> frame_on {i} d d' \<and> r' = r \<and> statusbar d' = statusbar d"
  by (auto simp: put_plat_def frame_on_def slot_def primary_def split: sum.splits dest!: cell_length)

lemma put_expt_frame:
  "put_expt s i (d, r) = Inr (d', r') \<or> put_expt s i (d, r) = Inl (e, d', r')
   \<Longrightarrow> frame_on {i} d d' \<and> r' = r \<and> statusbar d' = statusbar d"
  by (auto simp: put_expt_def frame_on_def slot_def primary_def split: sum.splits dest!: cell_length)

lemma put_cars_frame:
  "put_cars s i (d, r) = Inr (d', r') \<or> put_cars s i (d, r) = Inl (e, d', r')
   \<Longrightarrow> frame_on {i} d d' \<and> r' = r \<and> statusbar d' = statusbar d"
  by (auto simp: put_cars_def frame_on_def slot_def primary_def split: sum.splits dest!: cell_length)

lemma put_cancelreason_frame:
  "put_cancelreason s i (d, r) = Inr (d', r') \<or> put_cancelreason s i (d, r) = Inl (e, d', r')
   \<Longrightarrow> frame_on {i} d d' \<and> r \<le> r' \<and> statusbar d' = statusbar d"
  using reason_row_frame[of "cancel_cond s" "getitem s (KStr ''cancelReason'')" i "cancelreason_disp d" r]
  by (auto simp: put_cancelreason_def frame_on_def slot_def primary_def split: sum.splits prod.splits)

lemma put_delayreason_frame:
  "put_delayreason s i (d, r) = Inr (d', r') \<or> put_delayreason s i (d, r) = Inl (e, d', r')
   \<Longrightarrow> frame_on {i} d d' \<and> r \<le> r' \<and> statusbar d' = statusbar d"
  using reason_row_frame[of "delay_cond s" "getitem s (KStr ''delayReason'')" i "delayreason_disp d" r]
  by (auto simp: put_delayreason_def frame_on_def slot_def primary_def split: sum.splits prod.splits)


lemma step_okD:
  "step_ok S f \<Longrightarrow> f (d, r) = Inr (d', r') \<or> f (d, r) = Inl (e, d', r')
    \<Longrightarrow> frame_on S d d' \<and> r \<le> r' \<and> statusbar d' = statusbar d"
  unfolding step_ok_def by blast

lemma run_steps_frame:
  assumes "\<forall>f\<in>set fs. step_ok S f"
  shows "run_steps fs (d, r) = Inr (d', r') \<or> run_steps fs (d, r) = Inl (e, d', r')
         \<Longrightarrow> frame_on S d d' \<and> r \<le> r' \<and> statusbar d' = statusbar d"
  using assms
proof (induction fs arbitrary: d r)
  case Nil
  then show ?case by auto
next
  case (Cons f fs)
  have f: "step_ok S f" using Cons.prems by simp
  show ?case
  proof (cases "f (d, r)")
    case (Inl x)
    then obtain e1 d1 r1 where x: "x = (e1, d1, r1)" by (cases x) auto
    with Inl Cons.prems(1) have "e1 = e" "d1 = d'" "r1 = r'" by auto
    with step_okD[OF f, of d r d' r' e] Inl x show ?thesis by auto
  next
    case (Inr y)
    then obtain d1 r1 where y: "y = (d1, r1)" by (cases y) auto
    from step_okD[OF f, of d r d1 r1] Inr y
    have 1: "frame_on S d d1 \<and> r \<le> r1 \<and> statusbar d1 = statusbar d" by auto
    from Cons.prems(1) Inr y
    have "run_steps fs (d1, r1) = Inr (d', r') \<or> run_steps fs (d1, r1) = Inl (e, d', r')" by simp
    from Cons.IH[OF this] Cons.prems(2)
    have 2: "frame_on S d1 d' \<and> r1 \<le> r' \<and> statusbar d' = statusbar d1" by simp
    from 1 2 frame_on_trans[of S d d1 S d'] show ?thesis by auto
  qed
qed

lemma steps_ok:
  "step_ok {i} (put_time s i)" "step_ok {i} (put_dest s i)" "step_ok {i} (put_plat s i)"
  "step_ok {i} (put_expt s i)" "step_ok {i} (put_cars s i)"
  "step_ok {i} (put_cancelreason s i)" "step_ok {i} (put_delayreason s i)"
  unfolding step_ok_def
  using put_time_frame[of s i] put_dest_frame[of s i] put_plat_frame[of s i]
    put_expt_frame[of s i] put_cars_frame[of s i] put_cancelreason_frame[of s i]
    put_delayreason_frame[of s i]
  by (metis order_refl)+

lemma try_body_frame:
  assumes "try_body s i (d, r) = Inr (d', r') \<or> try_body s i (d, r) = Inl (e, d', r')"
  shows "frame_on {i} d d' \<and> r \<le> r' \<and> statusbar d' = statusbar d"
proof -
  have "\<forall>f\<in>set (try_statements s i). step_ok {i} f"
    by (simp add: try_statements_def steps_ok)
  from run_steps_frame[OF this] assms show ?thesis
    unfolding try_body_def by blast
qed

lemma for_body_cases:
  obtains (ok) d1 r1 where "try_body s i (d, r) = Inr (d1, r1)"
      "for_body s (d, r, i) = Inr (d1, r1 + 1, i + 1)"
  | (key) ke d1 r1 where "try_body s i (d, r) = Inl (KeyError ke, d1, r1)"
      "for_body s (d, r, i) =
         Inr (statusbar_text d1 (''Unknown data key '' @ key_repr ke), r1 + 1, i + 1)"
  | (crash) e d1 r1 where "try_body s i (d, r) = Inl (e, d1, r1)" "\<forall>ke. e \<noteq> KeyError ke"
      "for_body s (d, r, i) = Inl (e, d1)"
proof (cases "try_body s i (d, r)")
  case (Inr y)
  then show ?thesis using ok by (cases y) (auto simp: for_body_def)
next
  case (Inl x)
  obtain e d1 r1 where x: "x = (e, d1, r1)" by (cases x) auto
  show ?thesis
  proof (cases e)
    case (KeyError ke)
    with Inl x show ?thesis using key by (auto simp: for_body_def)
  next
    case IndexError
    with Inl x show ?thesis using crash[of e d1 r1] by (auto simp: for_body_def)
  next
    case TypeError
    with Inl x show ?thesis using crash[of e d1 r1] by (auto simp: for_body_def)
  qed
qed

lemma for_body_frame:
  "for_body s (d, r, i) = Inr (d', r', i') \<Longrightarrow> frame_on {i} d d' \<and> r < r' \<and> i' = Suc i"
  "for_body s (d, r, i) = Inl (e, d') \<Longrightarrow> frame_on {i} d d'"
proof -
  show "for_body s (d, r, i) = Inr (d', r', i') \<Longrightarrow> frame_on {i} d d' \<and> r < r' \<and> i' = Suc i"
    by (cases rule: for_body_cases[of s i d r]) (use try_body_frame[of s i d r] in fastforce)+
  show "for_body s (d, r, i) = Inl (e, d') \<Longrightarrow> frame_on {i} d d'"
    by (cases rule: for_body_cases[of s i d r]) (use try_body_frame[of s i d r] in fastforce)+
qed

lemma service_loop_frame:
  "service_loop xs (d, r, i) = Inr (d', r', i')
     \<Longrightarrow> frame_on {i ..< i + length xs} d d' \<and> r \<le> r' \<and> i' = i + length xs"
  "service_loop xs (d, r, i) = Inl (e, d') \<Longrightarrow> frame_on {i ..< i + length xs} d d'"
proof (induction xs arbitrary: d r i)
  case Nil
  { case 1 then show ?case by simp }
  { case 2 then show ?case by simp }
next
  case (Cons s xs)
  { case 1
    then obtain d1 r1 i1 where fb: "for_body s (d, r, i) = Inr (d1, r1, i1)"
      and rest: "service_loop xs (d1, r1, i1) = Inr (d', r', i')"
      by (auto split: sum.splits)
    from for_body_frame(1)[OF fb] Cons.IH(1)[OF rest]
    show ?case
      by (auto intro: frame_on_mono[OF frame_on_trans]) }
  { case 2
    show ?case
    proof (cases "for_body s (d, r, i)")
      case (Inl x)
      with 2 have "for_body s (d, r, i) = Inl (e, d')" by simp
      from for_body_frame(2)[OF this] show ?thesis
        by (auto intro: frame_on_mono)
    next
      case (Inr y)
      obtain d1 r1 i1 where y: "y = (d1, r1, i1)" by (cases y) auto
      with Inr 2 have rest: "service_loop xs (d1, r1, i1) = Inl (e, d')" by simp
      from for_body_frame(1)[of s d r i d1 r1 i1] Inr y Cons.IH(2)[OF rest]
      show ?thesis
        by (auto intro: frame_on_mono[OF frame_on_trans])
    qed }
qed

lemma blank_item_frame: "frame_on {item} d (blank_item item d)"
  by (simp add: frame_on_def blank_item_def slot_def primary_def)

lemma statusbar_blank_item [simp]: "statusbar (blank_item item d) = statusbar d"
  by (simp add: blank_item_def)

lemma blank_rows_frame:
  "blank_rows items d = Inr d' \<or> blank_rows items d = Inl (e, d')
     \<Longrightarrow> frame_on (set items) d d' \<and> statusbar d' = statusbar d"
proof (induction items arbitrary: d)
  case Nil
  then show ?case by auto
next
  case (Cons item items)
  show ?case
  proof (cases "\<not> length (time_disp d) \<le> item \<and> shown (time_disp d ! item) \<and> all_indexable item d")
    case True
    with Cons.prems have "blank_rows items (blank_item item d) = Inr d'
        \<or> blank_rows items (blank_item item d) = Inl (e, d')" by simp
    from Cons.IH[OF this] blank_item_frame[of item d]
    show ?thesis by (auto intro: frame_on_mono[OF frame_on_trans])
  next
    case False
    with Cons.prems have "d' = d" by (auto split: if_splits)
    then show ?thesis by simp
  qed
qed


section \<open>The window title\<close>

lemma check_data_cases:
  obtains (data) "has_data G" "check_data G d = Inr (d, True)"
  | (nodata) m where "\<not> has_data G" "check_data G d = Inr (statusbar_text d m, False)"
  | (crash) e where "\<not> has_data G" "check_data G d = Inl (e, d)"
  by (cases "check_data G d")
     (auto simp: check_data_def has_data_def split: if_splits sum.splits bool.splits)

lemma set_title_title:
  "set_title G d = Inr d' \<or> set_title G d = Inl (e, d') \<Longrightarrow>
   title d' = (if title d = ''tk''
               then (case getitem G (KStr ''locationName'') of
                       Inl e \<Rightarrow> ''tk'' | Inr n \<Rightarrow> ''Departures from '' @ py_str n)
               else title d)
   \<and> frame_on {} d (d'\<lparr>title := title d\<rparr>) \<and> statusbar d' = statusbar d"
  by (auto simp: set_title_def frame_on_def slot_def primary_def split: if_splits sum.splits)

lemma populate_title:
  assumes "populate rows G d = Inr (d', r) \<or> populate rows G d = Inl (e, d')"
  shows "title d' = (if title d = ''tk''
               then (case getitem G (KStr ''locationName'') of
                       Inl e \<Rightarrow> ''tk'' | Inr n \<Rightarrow> ''Departures from '' @ py_str n)
               else title d)"
proof (cases "set_title G d")
  case (Inl x)
  with assms have "set_title G d = Inl (e, d')" by (auto simp: populate_def)
  from set_title_title[of G d d' e] this show ?thesis by simp
next
  case (Inr d1)
  from set_title_title[of G d d1] Inr
  have t1: "title d1 = (if title d = ''tk''
               then (case getitem G (KStr ''locationName'') of
                       Inl e \<Rightarrow> ''tk'' | Inr n \<Rightarrow> ''Departures from '' @ py_str n)
               else title d)" by simp
  have "title d' = title d1"
  proof (cases "services_of G")
    case (Inl e1)
    with assms Inr show ?thesis by (auto simp: populate_def)
  next
    case xs: (Inr xs)
    show ?thesis
    proof (cases "service_loop xs (d1, 2, 0)")
      case (Inl x)
      with assms Inr xs have "service_loop xs (d1, 2, 0) = Inl (e, d')"
        by (auto simp: populate_def)
      from service_loop_frame(2)[OF this] show ?thesis by (simp add: frame_on_def)
    next
      case l: (Inr y)
      obtain d2 r2 i2 where y: "y = (d2, r2, i2)" by (cases y) auto
      from service_loop_frame(1)[of xs d1 2 0 d2 r2 i2] l y
      have 1: "title d2 = title d1" by (simp add: frame_on_def)
      show ?thesis
      proof (cases "int i2 < rows")
        case True
        with assms Inr xs l y
        have "blank_rows [i2 ..< nat rows] d2 = Inr d' \<or> blank_rows [i2 ..< nat rows] d2 = Inl (e, d')"
          by (auto simp: populate_def split: sum.splits)
        from blank_rows_frame[OF this] 1 show ?thesis by (simp add: frame_on_def)
      next
        case False
        with assms Inr xs l y have "d' = d2" by (auto simp: populate_def)
        with 1 show ?thesis by simp
      qed
    qed
  qed
  with t1 show ?thesis by simp
qed

lemma display_info_title:
  "title (carried (display_info rows G d)) =
     (if title d = ''tk'' \<and> has_data G
      then (case getitem G (KStr ''locationName'') of
              Inl e \<Rightarrow> ''tk'' | Inr n \<Rightarrow> ''Departures from '' @ py_str n)
      else title d)"
proof (cases rule: check_data_cases[of G d])
  case data
  show ?thesis
  proof (cases "populate rows G d")
    case (Inl x)
    obtain e d' where x: "x = (e, d')" by (cases x) auto
    from populate_title[of rows G d d' _ e] Inl x data show ?thesis
      by (simp add: display_info_def carried_def)
  next
    case (Inr y)
    obtain d' r where y: "y = (d', r)" by (cases y) auto
    from populate_title[of rows G d d' r] Inr y data show ?thesis
      by (simp add: display_info_def carried_def)
  qed
next
  case (nodata m)
  then show ?thesis by (simp add: display_info_def carried_def)
next
  case (crash e)
  then show ?thesis by (simp add: display_info_def carried_def)
qed

lemma not_tk [simp]: "''Departures from '' @ s \<noteq> ''tk''"
  by simp

lemma title_kept: "title d \<noteq> ''tk'' \<Longrightarrow> title (carried (display_info rows G d)) = title d"
  by (simp add: display_info_title)

lemma refresh_seq_title_kept: "title d \<noteq> ''tk'' \<Longrightarrow> title (refresh_seq rows Gs d) = title d"
proof (induction Gs arbitrary: d)
  case Nil
  then show ?case by simp
next
  case (Cons G Gs)
  from title_kept[OF Cons.prems, of rows G]
  show ?case using Cons.IH Cons.prems
    by (auto simp: carried_def split: sum.splits)
qed

text \<open>
  C9. Once the title is no longer the placeholder \<^verbatim>\<open>tk\<close>, no sequence of refreshes
  changes it. While it is the placeholder, the first refresh whose response passes the
  data tests and has a station name sets it to "Departures from" and the name, for good;
  a refresh without data leaves the placeholder.
\<close>

theorem title_set_once:
  "(title d \<noteq> ''tk'' \<longrightarrow> title (refresh_seq rows Gs d) = title d)
   \<and> (title d = ''tk'' \<and> has_data G \<and> getitem G (KStr ''locationName'') = Inr n
        \<longrightarrow> title (refresh_seq rows (G # Gs) d) = ''Departures from '' @ py_str n)
   \<and> (title d = ''tk'' \<and> \<not> has_data G \<longrightarrow> title (carried (display_info rows G d)) = ''tk'')"
proof (intro conjI impI)
  show "title d \<noteq> ''tk'' \<Longrightarrow> title (refresh_seq rows Gs d) = title d"
    by (rule refresh_seq_title_kept)
  show "title (refresh_seq rows (G # Gs) d) = ''Departures from '' @ py_str n"
    if h: "title d = ''tk'' \<and> has_data G \<and> getitem G (KStr ''locationName'') = Inr n"
  proof -
    from h display_info_title[of rows G d]
    have t: "title (carried (display_info rows G d)) = ''Departures from '' @ py_str n" by simp
    then show ?thesis
      using refresh_seq_title_kept[of _ rows Gs]
      by (auto simp: carried_def split: sum.splits)
  qed
  show "title d = ''tk'' \<and> \<not> has_data G \<Longrightarrow> title (carried (display_info rows G d)) = ''tk''"
    by (simp add: display_info_title)
qed


theorem title_set_once_witness:
  "title (refresh_seq 10 [mk_response ''Oxford'' [on_time]]
            (init_display\<lparr>title := ''Departures from Reading''\<rparr>)) = ''Departures from Reading''
   \<and> title (refresh_seq 10 [mk_response ''Reading'' [on_time], mk_response ''Oxford'' [], PNone]
              init_display) = ''Departures from Reading''
   \<and> title (carried (display_info 10 PNone init_display)) = ''tk''"
proof -
  have 1: "title (init_display\<lparr>title := ''Departures from Reading''\<rparr>) \<noteq> ''tk''"
    by simp
  have 2: "title init_display = ''tk'' \<and> has_data (mk_response ''Reading'' [on_time])
           \<and> getitem (mk_response ''Reading'' [on_time]) (KStr ''locationName'') = Inr (PStr ''Reading'')"
    by (simp add: init_display_def has_data_def mk_response_def)
  have 3: "title init_display = ''tk'' \<and> \<not> has_data PNone"
    by (simp add: init_display_def has_data_def)
  from title_set_once[of "init_display\<lparr>title := ''Departures from Reading''\<rparr>" 10
        "[mk_response ''Oxford'' [on_time]]"] 1
  have a: "title (refresh_seq 10 [mk_response ''Oxford'' [on_time]]
            (init_display\<lparr>title := ''Departures from Reading''\<rparr>)) = ''Departures from Reading''"
    by simp
  from title_set_once[of init_display 10 "[mk_response ''Oxford'' [], PNone]"
        "mk_response ''Reading'' [on_time]" "PStr ''Reading''"] 2
  have b: "title (refresh_seq 10 [mk_response ''Reading'' [on_time], mk_response ''Oxford'' [], PNone]
              init_display) = ''Departures from Reading''"
    by (simp add: py_str_def)
  from title_set_once[of init_display 10 "[]" PNone] 3
  have c: "title (carried (display_info 10 PNone init_display)) = ''tk''"
    by blast
  from a b c show ?thesis by blast
qed


section \<open>After the stop flag is set\<close>

lemma getServiceInfo_world:
  "Running (snd (getServiceInfo f w)) = Running w \<and> calls (snd (getServiceInfo f w)) = calls w + 1
   \<and> timers (snd (getServiceInfo f w)) = timers w \<and> destroyed (snd (getServiceInfo f w)) = destroyed w
   \<and> dialogs (snd (getServiceInfo f w)) = dialogs w"
  by (cases f) (simp_all add: getServiceInfo_def)

lemma show_messages_world:
  "show_messages dm G w = Inr w' \<or> show_messages dm G w = Inl (e, w') \<Longrightarrow>
   Running w' = Running w \<and> calls w' = calls w \<and> timers w' = timers w
   \<and> destroyed w' = destroyed w \<and> disp w' = disp w"
  by (auto simp: show_messages_def split: if_splits sum.splits)

lemma update_display_world:
  "Running (carried (update_display rows dm f w)) = Running w
   \<and> calls (carried (update_display rows dm f w)) = calls w + 1
   \<and> (if Running w \<and> raised (update_display rows dm f w) = None
       then timers (carried (update_display rows dm f w)) = timers w @ [(15000, cb_update_display)]
       else timers (carried (update_display rows dm f w)) = timers w)
   \<and> destroyed (carried (update_display rows dm f w))
       = (if \<not> Running w \<and> raised (update_display rows dm f w) = None then True else destroyed w)"
proof -
  obtain G w1 where g: "getServiceInfo f w = (G, w1)" by (cases "getServiceInfo f w") auto
  with getServiceInfo_world[of f w]
  have w1: "Running w1 = Running w" "calls w1 = calls w + 1" "timers w1 = timers w"
    "destroyed w1 = destroyed w" by simp_all
  show ?thesis
  proof (cases "show_messages dm G w1")
    case (Inl x)
    obtain e w2 where x: "x = (e, w2)" by (cases x) auto
    from show_messages_world[of dm G w1 w2 e] Inl x w1 g show ?thesis
      by (simp add: update_display_def carried_def raised_def)
  next
    case (Inr w2)
    from show_messages_world[of dm G w1 w2] Inr w1
    have w2: "Running w2 = Running w" "calls w2 = calls w + 1" "timers w2 = timers w"
      "destroyed w2 = destroyed w" by simp_all
    show ?thesis
    proof (cases "display_info rows G (disp w2)")
      case (Inl x)
      obtain e d where x: "x = (e, d)" by (cases x) auto
      with Inl Inr g w2 show ?thesis
        by (simp add: update_display_def carried_def raised_def)
    next
      case d: (Inr d)
      with Inr g w2 show ?thesis
        by (simp add: update_display_def carried_def raised_def)
    qed
  qed
qed

lemma update_time_world:
  "Running (update_time now w) = Running w \<and> calls (update_time now w) = calls w
   \<and> destroyed (update_time now w) = destroyed w
   \<and> timers (update_time now w)
       = (if Running w then timers w @ [(1000, cb_update_time)] else timers w)"
  by (simp add: update_time_def Let_def)

lemma run_callback_update_display:
  "run_callback rows cb_update_display f now w = carried (update_display rows False f w)"
  by (auto simp: run_callback_def carried_def split: sum.splits)

lemma run_callback_update_time:
  "run_callback rows cb_update_time f now w = update_time now w"
  by (simp add: run_callback_def)

lemma filter_remove_nth:
  "n < length xs \<Longrightarrow>
   length (filter P (remove_nth n xs)) = length (filter P xs) - (if P (xs ! n) then 1 else 0)"
proof -
  assume n: "n < length xs"
  have "filter P xs = filter P (take n xs @ xs ! n # drop (Suc n) xs)"
    using id_take_nth_drop[OF n] by simp
  then show ?thesis by (auto simp: remove_nth_def)
qed

lemma set_remove_nth: "set (remove_nth n xs) \<subseteq> set xs"
  by (auto simp: remove_nth_def dest: in_set_takeD in_set_dropD)

lemma length_remove_nth: "length (remove_nth n xs) \<le> length xs"
  by (simp add: remove_nth_def)

lemma handle_destroyed [simp]: "destroyed w \<Longrightarrow> handle rows ev w = w"
  by (simp add: handle_def)

lemma mainloop_destroyed: "destroyed w \<Longrightarrow> mainloop rows evs w = w"
  by (induction evs) simp_all

lemma handle_stopped:
  assumes "\<not> Running w"
  shows "\<not> Running (handle rows ev w)
     \<and> set (timers (handle rows ev w)) \<subseteq> set (timers w)
     \<and> length (timers (handle rows ev w)) \<le> length (timers w)
     \<and> calls (handle rows ev w) + refresh_pending (handle rows ev w)
         \<le> calls w + refresh_pending w"
proof (cases "destroyed w")
  case True
  with assms show ?thesis by simp
next
  case nd: False
  show ?thesis
  proof (cases ev)
    case (Key k)
    with nd assms show ?thesis
      by (simp add: handle_def handle_keyevent_def refresh_pending_def)
  next
    case WindowClose
    with nd assms show ?thesis
      by (simp add: handle_def handle_windowclose_def refresh_pending_def)
  next
    case (Fire n f now)
    show ?thesis
    proof (cases "n < length (timers w)")
      case False
      with Fire nd assms show ?thesis by (simp add: handle_def)
    next
      case n: True
      let ?w1 = "w\<lparr>timers := remove_nth n (timers w)\<rparr>"
      have r1: "\<not> Running ?w1" using assms by simp
      show ?thesis
      proof (cases "snd (timers w ! n)")
        case cb_update_display
        have h: "handle rows ev w = carried (update_display rows False f ?w1)"
          using Fire nd n cb_update_display
          by (simp add: handle_def run_callback_update_display)
        have p: "refresh_pending ?w1 + 1 = refresh_pending w"
          using filter_remove_nth[OF n, of "\<lambda>t. snd t = cb_update_display"] cb_update_display n
          by (auto simp: refresh_pending_def filter_empty_conv
                   intro!: Suc_pred simp flip: length_greater_0_conv)
        from update_display_world[of rows False f ?w1] r1 h p
          set_remove_nth[of n "timers w"] length_remove_nth[of n "timers w"]
        show ?thesis by (auto simp: refresh_pending_def)
      next
        case cb_update_time
        have h: "handle rows ev w = update_time now ?w1"
          using Fire nd n cb_update_time
          by (simp add: handle_def run_callback_update_time)
        have p: "refresh_pending ?w1 = refresh_pending w"
          using filter_remove_nth[OF n, of "\<lambda>t. snd t = cb_update_display"] cb_update_time
          by (simp add: refresh_pending_def)
        from update_time_world[of now ?w1] r1 h p
          set_remove_nth[of n "timers w"] length_remove_nth[of n "timers w"]
        show ?thesis by (auto simp: refresh_pending_def)
      qed
    qed
  qed
qed

lemma mainloop_stopped:
  assumes "\<not> Running w"
  shows "\<not> Running (mainloop rows evs w)
     \<and> set (timers (mainloop rows evs w)) \<subseteq> set (timers w)
     \<and> length (timers (mainloop rows evs w)) \<le> length (timers w)
     \<and> calls (mainloop rows evs w) + refresh_pending (mainloop rows evs w)
         \<le> calls w + refresh_pending w"
  using assms
proof (induction evs arbitrary: w)
  case Nil
  then show ?case by simp
next
  case (Cons ev evs)
  from handle_stopped[OF Cons.prems, of rows ev]
  have 1: "\<not> Running (handle rows ev w)" by simp
  from Cons.IH[OF 1] handle_stopped[OF Cons.prems, of rows ev]
  show ?case by auto
qed

lemma handle_pending:
  assumes "refresh_pending w \<le> 1"
  shows "refresh_pending (handle rows ev w) \<le> 1"
proof (cases "destroyed w")
  case True
  with assms show ?thesis by simp
next
  case nd: False
  show ?thesis
  proof (cases ev)
    case (Key k)
    with nd assms show ?thesis
      by (simp add: handle_def handle_keyevent_def refresh_pending_def)
  next
    case WindowClose
    with nd assms show ?thesis
      by (simp add: handle_def handle_windowclose_def refresh_pending_def)
  next
    case (Fire n f now)
    show ?thesis
    proof (cases "n < length (timers w)")
      case False
      with Fire nd assms show ?thesis by (simp add: handle_def)
    next
      case n: True
      let ?w1 = "w\<lparr>timers := remove_nth n (timers w)\<rparr>"
      show ?thesis
      proof (cases "snd (timers w ! n)")
        case cb_update_display
        have h: "handle rows ev w = carried (update_display rows False f ?w1)"
          using Fire nd n cb_update_display
          by (simp add: handle_def run_callback_update_display)
        have p: "refresh_pending ?w1 = refresh_pending w - 1"
          using filter_remove_nth[OF n, of "\<lambda>t. snd t = cb_update_display"] cb_update_display
          by (simp add: refresh_pending_def)
        from update_display_world[of rows False f ?w1] h p assms
        show ?thesis by (auto simp: refresh_pending_def split: if_splits)
      next
        case cb_update_time
        have h: "handle rows ev w = update_time now ?w1"
          using Fire nd n cb_update_time
          by (simp add: handle_def run_callback_update_time)
        have p: "refresh_pending ?w1 = refresh_pending w"
          using filter_remove_nth[OF n, of "\<lambda>t. snd t = cb_update_display"] cb_update_time
          by (simp add: refresh_pending_def)
        from update_time_world[of now ?w1] h p assms
        show ?thesis by (auto simp: refresh_pending_def)
      qed
    qed
  qed
qed

lemma mainloop_pending: "refresh_pending w \<le> 1 \<Longrightarrow> refresh_pending (mainloop rows evs w) \<le> 1"
proof (induction evs arbitrary: w)
  case Nil
  then show ?case by simp
next
  case (Cons ev evs)
  from Cons.IH[OF handle_pending[OF Cons.prems, of rows ev]] show ?case by simp
qed

lemma startup_pending:
  assumes "startup rows f now = Inr w"
  shows "refresh_pending w \<le> 1"
proof -
  from assms obtain w0 where w0: "update_display rows True f init_world = Inr w0"
    and w: "w = update_time now w0"
    by (auto simp: startup_def split: sum.splits)
  from update_display_world[of rows True f init_world] w0
  have "timers w0 = [(15000, cb_update_display)]"
    by (simp add: carried_def raised_def init_world_def)
  with w update_time_world[of now w0] show ?thesis
    by (simp add: refresh_pending_def)
qed

lemma fire_refresh_stopped:
  assumes "\<not> Running w" "\<not> destroyed w" "n < length (timers w)"
    "snd (timers w ! n) = cb_update_display"
  shows "calls (handle rows (Fire n f now) w) = calls w + 1
     \<and> destroyed (handle rows (Fire n f now) w)
         = (raised (update_display rows False f (w\<lparr>timers := remove_nth n (timers w)\<rparr>)) = None)"
proof -
  let ?w1 = "w\<lparr>timers := remove_nth n (timers w)\<rparr>"
  have h: "handle rows (Fire n f now) w = carried (update_display rows False f ?w1)"
    using assms by (simp add: handle_def run_callback_update_display)
  from update_display_world[of rows False f ?w1] h assms show ?thesis by simp
qed

lemma handle_stopped_exact:
  assumes "\<not> Running w"
  shows "timers (handle rows ev w)
           = (case ev of
                Fire n f now \<Rightarrow>
                  if \<not> destroyed w \<and> n < length (timers w) then remove_nth n (timers w)
                  else timers w
              | Key k \<Rightarrow> timers w
              | WindowClose \<Rightarrow> timers w)
     \<and> calls (handle rows ev w)
           = calls w
             + (case ev of
                  Fire n f now \<Rightarrow>
                    if \<not> destroyed w \<and> n < length (timers w)
                       \<and> snd (timers w ! n) = cb_update_display then 1 else 0
                | Key k \<Rightarrow> 0
                | WindowClose \<Rightarrow> 0)"
proof (cases "destroyed w")
  case True
  then show ?thesis by (cases ev) simp_all
next
  case nd: False
  show ?thesis
  proof (cases ev)
    case (Key k)
    with nd show ?thesis by (simp add: handle_def handle_keyevent_def)
  next
    case WindowClose
    with nd show ?thesis by (simp add: handle_def handle_windowclose_def)
  next
    case (Fire n f now)
    show ?thesis
    proof (cases "n < length (timers w)")
      case False
      with Fire nd show ?thesis by (simp add: handle_def)
    next
      case n: True
      let ?w1 = "w\<lparr>timers := remove_nth n (timers w)\<rparr>"
      have r1: "\<not> Running ?w1" using assms by simp
      show ?thesis
      proof (cases "snd (timers w ! n)")
        case cb_update_display
        have h: "handle rows ev w = carried (update_display rows False f ?w1)"
          using Fire nd n cb_update_display
          by (simp add: handle_def run_callback_update_display)
        from update_display_world[of rows False f ?w1] r1 h Fire nd n cb_update_display
        show ?thesis by simp
      next
        case cb_update_time
        have h: "handle rows ev w = update_time now ?w1"
          using Fire nd n cb_update_time
          by (simp add: handle_def run_callback_update_time)
        from update_time_world[of now ?w1] r1 h Fire nd n cb_update_time
        show ?thesis by simp
      qed
    qed
  qed
qed

text \<open>
  C7, as the code has it. In a run of the program, once \<^verbatim>\<open>Running\<close> is false it stays
  false, and every event handled afterwards leaves the timer queue as it is or, when it
  fires a timer, exactly without that timer: no callback schedules a further timer, so the
  clock chain and the refresh chain both end. \<^verbatim>\<open>update_display\<close> tests \<^verbatim>\<open>Running\<close> only
  after the call of the web service and the rendering: a call is made exactly by the firing
  of a pending refresh timer, at most one call is made after the flag is set, and the
  refresh tick whose rendering completes destroys the window, after which no event changes
  the state.
\<close>

theorem stop_flag_ends_refreshing:
  assumes "startup rows f0 now0 = Inr w0" and "w = mainloop rows evs0 w0" and "\<not> Running w"
    and "w' = mainloop rows evs w"
  shows "\<not> Running w'
     \<and> timers (handle rows ev w')
           = (case ev of
                Fire n f now \<Rightarrow>
                  if \<not> destroyed w' \<and> n < length (timers w') then remove_nth n (timers w')
                  else timers w'
              | Key k \<Rightarrow> timers w'
              | WindowClose \<Rightarrow> timers w')
     \<and> calls (handle rows ev w')
           = calls w'
             + (case ev of
                  Fire n f now \<Rightarrow>
                    if \<not> destroyed w' \<and> n < length (timers w')
                       \<and> snd (timers w' ! n) = cb_update_display then 1 else 0
                | Key k \<Rightarrow> 0
                | WindowClose \<Rightarrow> 0)
     \<and> calls w' \<le> calls w + 1
     \<and> (\<not> destroyed w' \<and> n < length (timers w') \<and> snd (timers w' ! n) = cb_update_display
          \<and> raised (update_display rows False f (w'\<lparr>timers := remove_nth n (timers w')\<rparr>)) = None
          \<longrightarrow> destroyed (handle rows (Fire n f now) w'))
     \<and> (destroyed w' \<longrightarrow> handle rows ev w' = w')"
proof -
  from assms(1,2) have p: "refresh_pending w \<le> 1"
    using mainloop_pending[OF startup_pending, of rows f0 now0 w0 rows evs0] by simp
  from mainloop_stopped[OF assms(3), of rows evs] assms(4)
  have r: "\<not> Running w'" and c0: "calls w' + refresh_pending w' \<le> calls w + refresh_pending w"
    by simp_all
  from c0 p have c: "calls w' \<le> calls w + 1" by linarith
  from fire_refresh_stopped[OF r, of n rows f now]
  have t: "\<not> destroyed w' \<and> n < length (timers w') \<and> snd (timers w' ! n) = cb_update_display
          \<and> raised (update_display rows False f (w'\<lparr>timers := remove_nth n (timers w')\<rparr>)) = None
          \<longrightarrow> destroyed (handle rows (Fire n f now) w')"
    by blast
  from handle_stopped_exact[OF r, of rows ev] r c t show ?thesis
    by simp
qed


lemmas eval_world = startup_def update_display_def getServiceInfo_def show_messages_def
  display_info_def check_data_def init_world_def update_time_def handle_def handle_keyevent_def
  carried_def raised_def Let_def remove_nth_def run_callback_def started_world_def stopped_world_def
  clock_ticked_world_def

lemma started_world_eq: "startup 10 (Returned PNone) ''12:00:00'' = Inr started_world"
  by (simp add: eval_world)

lemma clock_ticked_world_facts:
  "\<not> Running stopped_world \<and> \<not> destroyed clock_ticked_world
   \<and> calls clock_ticked_world = calls stopped_world
   \<and> timers stopped_world = [(15000, cb_update_display), (1000, cb_update_time)]
   \<and> timers clock_ticked_world = [(15000, cb_update_display)]"
  by (simp add: eval_world)

text \<open>
  C7 as stated fails: after Escape is pressed, the refresh tick that follows still calls the
  web service.
\<close>

theorem fetch_after_stop_counterexample:
  "\<not> Running stopped_world
   \<and> calls (handle 10 (Fire 0 (Returned PNone) ''12:00:15'') stopped_world) = calls stopped_world + 1"
  by (simp add: eval_world)

theorem stop_flag_ends_refreshing_witness:
  "\<not> Running clock_ticked_world
   \<and> timers stopped_world = [(15000, cb_update_display), (1000, cb_update_time)]
   \<and> timers clock_ticked_world = [(15000, cb_update_display)]
   \<and> timers (handle 10 (Fire 0 (Returned PNone) ''12:00:15'') clock_ticked_world) = []
   \<and> calls (handle 10 (Fire 0 (Returned PNone) ''12:00:15'') clock_ticked_world)
       = calls stopped_world + 1
   \<and> destroyed (handle 10 (Fire 0 (Returned PNone) ''12:00:15'') clock_ticked_world)"
proof -
  have r: "raised (update_display 10 False (Returned PNone)
             (clock_ticked_world\<lparr>timers := remove_nth 0 (timers clock_ticked_world)\<rparr>)) = None"
    by (simp add: update_display_def getServiceInfo_def show_messages_def display_info_None raised_def)
  have s: "\<not> Running stopped_world"
    using clock_ticked_world_facts by simp
  from stop_flag_ends_refreshing[OF started_world_eq stopped_world_def s clock_ticked_world_def,
      of "Fire 0 (Returned PNone) ''12:00:15''" 0 "Returned PNone" "''12:00:15''"]
    clock_ticked_world_facts r
  show ?thesis by (simp add: remove_nth_def)
qed

section \<open>Rendering the entries\<close>

lemma grid_remove_hidden: "\<not> shown l \<Longrightarrow> grid_remove l = l"
  by (cases l) (simp add: shown_def grid_remove_def)

lemma err_None_iff: "err r = None \<longleftrightarrow> (\<exists>v. r = Inr v)"
  by (cases r) (simp_all add: err_def)

lemma cancel_cond_True:
  "cancel_cond s = Inr True \<Longrightarrow> \<exists>v. getitem s (KStr ''cancelReason'') = Inr v \<and> v \<noteq> PNone"
  by (auto simp: cancel_cond_def is_not_None_def split: sum.splits if_splits)

lemma delay_cond_True:
  "delay_cond s = Inr True \<Longrightarrow>
     getitem s (KStr ''cancelReason'') = Inr PNone
     \<and> (\<exists>v. getitem s (KStr ''delayReason'') = Inr v \<and> v \<noteq> PNone)"
  by (auto simp: delay_cond_def is_not_None_def split: sum.splits if_splits)

lemma not_both_reasons: "cancel_cond s = Inr True \<Longrightarrow> delay_cond s \<noteq> Inr True"
  by (auto dest!: cancel_cond_True delay_cond_True)

lemma entry_okD:
  assumes "entry_ok s"
  shows "\<exists>v. getitem s (KStr ''std'') = Inr v"
    "\<exists>v. getpath s [KStr ''destination'', KStr ''location'', KInt 0, KStr ''locationName''] = Inr v"
    "\<exists>v. platform_text s = Inr v"
    "\<exists>v. getitem s (KStr ''etd'') = Inr v"
    "\<exists>v. getitem s (KStr ''length'') = Inr v"
    "\<exists>b. cancel_cond s = Inr b"
    "\<exists>b. delay_cond s = Inr b"
  using assms
  by (auto simp: entry_ok_def entry_error_def err_def split: sum.splits)

lemma reason_row_ok:
  assumes "i < length ls" "cond = Inr b" "b \<longrightarrow> (\<exists>v. txt = Inr v)"
  shows "\<exists>ls'. reason_row cond txt i (ls, r) = Inr (ls', if b then r + 1 else r)
           \<and> length ls' = length ls \<and> (\<forall>j. j \<noteq> i \<longrightarrow> ls' ! j = ls ! j)
           \<and> ls' ! i = (if b then grid (config_text (ls ! i) (projr txt)) (r + 1) 1 4
                        else grid_remove (ls ! i))"
  using assms
  by (auto simp: reason_row_def write_cell_def grid_remove_hidden)

lemma cell_ok:
  assumes "i < length ls" "txt = Inr v"
  shows "cell txt i r c ls = Inr (ls[i := grid (config_text (ls ! i) v) r c 1])"
  using assms by (simp add: cell_def write_cell_def)

lemma try_body_ok:
  assumes ok: "entry_ok s" and ix: "all_indexable i d"
  shows "\<exists>d1. try_body s i (d, r) = Inr (d1, r + entry_rows s - 1)
           \<and> slot d1 i = render_slot s r (slot d i)"
proof -
  from entry_okD[OF ok] obtain v1 v2 v3 v4 v5 b1 b2 where
    v: "getitem s (KStr ''std'') = Inr v1"
       "getpath s [KStr ''destination'', KStr ''location'', KInt 0, KStr ''locationName''] = Inr v2"
       "platform_text s = Inr v3"
       "getitem s (KStr ''etd'') = Inr v4"
       "getitem s (KStr ''length'') = Inr v5"
       "cancel_cond s = Inr b1" "delay_cond s = Inr b2"
    by blast
  from ix have ix': "i < length (time_disp d)" "i < length (dest_disp d)" "i < length (plat_disp d)"
    "i < length (expt_disp d)" "i < length (cars_disp d)" "i < length (cancelreason_disp d)"
    "i < length (delayreason_disp d)"
    by (simp_all add: all_indexable_def)
  have c1: "b1 \<longrightarrow> (\<exists>v. getitem s (KStr ''cancelReason'') = Inr v)"
    using cancel_cond_True[of s] v(6) by auto
  have c2: "b2 \<longrightarrow> (\<exists>v. getitem s (KStr ''delayReason'') = Inr v)"
    using delay_cond_True[of s] v(7) by auto
  have nb: "\<not> (b1 \<and> b2)" using not_both_reasons[of s] v(6,7) by auto
  from reason_row_ok[OF ix'(6) v(6) c1, of r] obtain cl where
    cl: "reason_row (cancel_cond s) (getitem s (KStr ''cancelReason'')) i (cancelreason_disp d, r)
           = Inr (cl, if b1 then r + 1 else r)"
        "cl ! i = (if b1 then grid (config_text (cancelreason_disp d ! i)
                      (projr (getitem s (KStr ''cancelReason'')))) (r + 1) 1 4
                   else grid_remove (cancelreason_disp d ! i))"
    by blast
  from reason_row_ok[OF ix'(7) v(7) c2, of "if b1 then r + 1 else r"] obtain dl where
    dl: "reason_row (delay_cond s) (getitem s (KStr ''delayReason'')) i
           (delayreason_disp d, if b1 then r + 1 else r)
           = Inr (dl, if b2 then (if b1 then r + 1 else r) + 1 else (if b1 then r + 1 else r))"
        "dl ! i = (if b2 then grid (config_text (delayreason_disp d ! i)
                      (projr (getitem s (KStr ''delayReason'')))) ((if b1 then r + 1 else r) + 1) 1 4
                   else grid_remove (delayreason_disp d ! i))"
    by blast
  show ?thesis
    using v ix' cl dl nb
    by (auto simp: try_body_def try_statements_def put_time_def put_dest_def put_plat_def
        put_expt_def put_cars_def put_cancelreason_def put_delayreason_def cell_ok
        entry_rows_def slot_def primary_def render_slot_def)
qed


lemma entry_rows_pos: "0 < entry_rows s"
  by (simp add: entry_rows_def)

lemma for_body_ok:
  assumes ok: "entry_ok s" and ix: "all_indexable i d"
  shows "\<exists>d1. for_body s (d, r, i) = Inr (d1, r + entry_rows s, Suc i)
           \<and> slot d1 i = render_slot s r (slot d i)
           \<and> frame_on {i} d d1 \<and> statusbar d1 = statusbar d"
proof -
  from try_body_ok[OF ok ix, of r] obtain d1 where
    t: "try_body s i (d, r) = Inr (d1, r + entry_rows s - 1)"
    and sl: "slot d1 i = render_slot s r (slot d i)" by blast
  from t have "for_body s (d, r, i) = Inr (d1, r + entry_rows s, Suc i)"
    using entry_rows_pos[of s] by (simp add: for_body_def)
  with try_body_frame[of s i d r d1 "r + entry_rows s - 1"] t sl show ?thesis by simp
qed

lemma lists_ok_indexable: "lists_ok d \<Longrightarrow> i < 10 \<Longrightarrow> all_indexable i d"
  by (simp add: lists_ok_def all_indexable_def)

lemma frame_on_lists_ok: "frame_on S d d' \<Longrightarrow> lists_ok d \<Longrightarrow> lists_ok d'"
  by (simp add: frame_on_def lists_ok_def)

lemma frame_on_slot: "frame_on S d d' \<Longrightarrow> j \<notin> S \<Longrightarrow> slot d' j = slot d j"
  by (simp add: frame_on_def)

lemma service_loop_ok:
  assumes "list_all entry_ok xs" "lists_ok d" "i + length xs \<le> 10"
  shows "\<exists>d'. service_loop xs (d, r, i)
                 = Inr (d', r + sum_list (map entry_rows xs), i + length xs)
           \<and> (\<forall>k<length xs. slot d' (i + k)
                  = render_slot (xs ! k) (r + sum_list (map entry_rows (take k xs))) (slot d (i + k)))
           \<and> frame_on {i ..< i + length xs} d d' \<and> statusbar d' = statusbar d"
  using assms
proof (induction xs arbitrary: d r i)
  case Nil
  then show ?case by simp
next
  case (Cons s xs)
  from Cons.prems have ok: "entry_ok s" and oks: "list_all entry_ok xs" and i: "i < 10"
    and len: "Suc i + length xs \<le> 10" by simp_all
  from for_body_ok[OF ok lists_ok_indexable[OF Cons.prems(2) i], of r] obtain d1 where
    fb: "for_body s (d, r, i) = Inr (d1, r + entry_rows s, Suc i)"
    and sl: "slot d1 i = render_slot s r (slot d i)"
    and fr: "frame_on {i} d d1" and sb: "statusbar d1 = statusbar d" by blast
  from Cons.IH[OF oks frame_on_lists_ok[OF fr Cons.prems(2)] len, of "r + entry_rows s"]
  obtain d' where
    lp: "service_loop xs (d1, r + entry_rows s, Suc i)
           = Inr (d', r + entry_rows s + sum_list (map entry_rows xs), Suc i + length xs)"
    and sls: "\<forall>k<length xs. slot d' (Suc i + k)
                  = render_slot (xs ! k) (r + entry_rows s + sum_list (map entry_rows (take k xs)))
                      (slot d1 (Suc i + k))"
    and fr': "frame_on {Suc i ..< Suc i + length xs} d1 d'" and sb': "statusbar d' = statusbar d1"
    by blast
  have 1: "service_loop (s # xs) (d, r, i)
             = Inr (d', r + sum_list (map entry_rows (s # xs)), i + length (s # xs))"
    using fb lp by (simp add: add.assoc)
  have 2: "slot d' (i + k)
             = render_slot ((s # xs) ! k) (r + sum_list (map entry_rows (take k (s # xs))))
                 (slot d (i + k))" if k: "k < length (s # xs)" for k
  proof (cases k)
    case 0
    from frame_on_slot[OF fr', of i] sl 0 show ?thesis by simp
  next
    case (Suc k')
    with k have k': "k' < length xs" by simp
    from frame_on_slot[OF fr, of "Suc i + k'"] have "slot d1 (Suc i + k') = slot d (Suc i + k')"
      by simp
    with sls k' Suc show ?thesis by (simp add: add.assoc)
  qed
  have 3: "frame_on {i ..< i + length (s # xs)} d d'"
    using frame_on_trans[OF fr fr'] by (auto intro: frame_on_mono)
  from 1 2 3 sb sb' show ?case by auto
qed

section \<open>More entries than labels\<close>

lemma service_loop_append:
  "service_loop (xs @ ys) st
     = (case service_loop xs st of Inl e \<Rightarrow> Inl e | Inr st' \<Rightarrow> service_loop ys st')"
  by (induction xs arbitrary: st) (auto split: sum.splits)

lemma for_body_out_of_range:
  assumes "length (time_disp d) \<le> i"
  shows "for_body s (d, r, i) = Inl (IndexError, d)"
  using assms
  by (simp add: for_body_def try_body_def try_statements_def put_time_def cell_def)

lemma too_many_entries:
  assumes "lists_ok d" "list_all entry_ok xs" "10 < length xs"
  shows "raised (service_loop xs (d, r, 0)) = Some IndexError"
proof -
  have xs: "xs = take 10 xs @ drop 10 xs" by simp
  from assms(2) have ok: "list_all entry_ok (take 10 xs)"
    by (auto simp: list_all_iff dest: in_set_takeD)
  from assms(3) have len: "0 + length (take 10 xs) \<le> 10" by simp
  from service_loop_ok[OF ok assms(1) len, of r] obtain d' r' where
    lp: "service_loop (take 10 xs) (d, r, 0) = Inr (d', r', 0 + length (take 10 xs))"
    and fr: "frame_on {0 ..< 0 + length (take 10 xs)} d d'" by blast
  from assms(3) have l10: "length (take 10 xs) = 10" by simp
  from fr assms(1) have "length (time_disp d') \<le> 10" by (simp add: frame_on_def lists_ok_def)
  from assms(3) obtain s rest where dr: "drop 10 xs = s # rest"
    by (cases "drop 10 xs") auto
  have dl: "service_loop (drop 10 xs) (d', r', 10) = Inl (IndexError, d')"
    using dr for_body_out_of_range[OF \<open>length (time_disp d') \<le> 10\<close>, of s r'] by simp
  from service_loop_append[of "take 10 xs" "drop 10 xs" "(d, r, 0)"] lp l10 dl
  have "service_loop xs (d, r, 0) = Inl (IndexError, d')" by simp
  then show ?thesis by (simp add: raised_def)
qed

text \<open>
  C2 fails on the code. Each of the seven lists has 10 labels and nothing bounds
  \<^verbatim>\<open>row_listindex\<close>: with a row count of 11 in the configuration, a response with eleven
  entries fills the ten slots and then raises \<^verbatim>\<open>IndexError\<close> at \<^verbatim>\<open>time_disp[10]\<close>, which
  \<^verbatim>\<open>except KeyError\<close> does not catch; the exception leaves \<^verbatim>\<open>display_info\<close> before the
  status bar is placed. With that row count a response with ten entries raises it too, in
  the blanking loop.
\<close>

theorem eleven_entries_raise_IndexError:
  "raised (display_info 11 eleven_entries init_display) = Some IndexError
   \<and> map shown (time_disp (carried (display_info 11 eleven_entries init_display)))
       = replicate 10 True
   \<and> \<not> shown (statusbar (carried (display_info 11 eleven_entries init_display)))
   \<and> raised (display_info 11 ten_entries init_display) = Some IndexError"
  unfolding eleven_entries_def ten_entries_def by code_simp

section \<open>The reason lines of an entry\<close>

lemma display_info_Inr_decomp:
  assumes "has_data G" "services_of G = Inr xs" "display_info rows G d = Inr d'"
  obtains d1 d2 r2 d3 where "set_title G d = Inr d1"
    "service_loop xs (d1, 2, 0) = Inr (d2, r2, length xs)"
    "(if int (length xs) < rows then blank_rows [length xs ..< nat rows] d2 else Inr d2) = Inr d3"
    "d' = place_status d3 r2"
proof -
  from assms(1) have cd: "check_data G d = Inr (d, True)"
    by (cases rule: check_data_cases[of G d]) auto
  with assms(3) obtain d3 r2 where p: "populate rows G d = Inr (d3, r2)" and d': "d' = place_status d3 r2"
    by (auto simp: display_info_def split: sum.splits)
  from p obtain d1 where st: "set_title G d = Inr d1"
    by (auto simp: populate_def split: sum.splits)
  from p st assms(2) obtain d2 r2' i2 where lp: "service_loop xs (d1, 2, 0) = Inr (d2, r2', i2)"
    by (auto simp: populate_def split: sum.splits)
  from service_loop_frame(1)[OF lp] have i2: "i2 = length xs" by simp
  from p st assms(2) lp i2 have
    "(if int (length xs) < rows then blank_rows [length xs ..< nat rows] d2 else Inr d2) = Inr d3"
    and "r2' = r2"
    by (auto simp: populate_def split: sum.splits if_splits)
  with st lp i2 d' that show ?thesis by blast
qed

lemma set_title_frame:
  "set_title G d = Inr d1 \<Longrightarrow> lists_ok d1 = lists_ok d \<and> slot d1 j = slot d j
     \<and> statusbar d1 = statusbar d"
  by (auto simp: set_title_def lists_ok_def slot_def primary_def split: if_splits sum.splits)

lemma service_loop_entry:
  assumes "service_loop xs (d, r, i) = Inr (d', r', i')" "k < length xs"
  shows "\<exists>dk rk dk1 rk1. for_body (xs ! k) (dk, rk, i + k) = Inr (dk1, rk1, Suc (i + k))
           \<and> frame_on {i ..< i + k} d dk \<and> slot d' (i + k) = slot dk1 (i + k)"
  using assms
proof (induction xs arbitrary: d r i k)
  case Nil
  then show ?case by simp
next
  case (Cons s xs)
  from Cons.prems(1) obtain d1 r1 i1 where fb: "for_body s (d, r, i) = Inr (d1, r1, i1)"
    and rest: "service_loop xs (d1, r1, i1) = Inr (d', r', i')"
    by (auto split: sum.splits)
  from for_body_frame(1)[OF fb] have i1: "i1 = Suc i" and fr: "frame_on {i} d d1" by simp_all
  show ?case
  proof (cases k)
    case 0
    from service_loop_frame(1)[OF rest] i1 have "frame_on {Suc i ..< Suc i + length xs} d1 d'"
      by simp
    from frame_on_slot[OF this, of i] have "slot d' i = slot d1 i" by simp
    with fb i1 0 show ?thesis
      by (intro exI[of _ d] exI[of _ r] exI[of _ d1] exI[of _ r1]) simp
  next
    case (Suc k')
    with Cons.prems(2) have k': "k' < length xs" by simp
    from Cons.IH[OF rest[unfolded i1] k'] obtain dk rk dk1 rk1 where
      1: "for_body (xs ! k') (dk, rk, Suc i + k') = Inr (dk1, rk1, Suc (Suc i + k'))"
      and 2: "frame_on {Suc i ..< Suc i + k'} d1 dk"
      and 3: "slot d' (Suc i + k') = slot dk1 (Suc i + k')" by blast
    have 4: "frame_on {i ..< i + k} d dk"
      using frame_on_trans[OF fr 2] Suc by (auto intro: frame_on_mono)
    from 1 3 4 Suc show ?thesis
      by (intro exI[of _ dk] exI[of _ rk] exI[of _ dk1] exI[of _ rk1]) simp
  qed
qed

lemma rendered_entry:
  assumes "lists_ok d" "has_data G" "services_of G = Inr xs" "display_info rows G d = Inr d'"
    "k < length xs" "entry_ok (xs ! k)"
  shows "\<exists>r. slot d' k = render_slot (xs ! k) r (slot d k)"
proof -
  from display_info_Inr_decomp[OF assms(2,3,4)] obtain d1 d2 r2 d3 where
    st: "set_title G d = Inr d1"
    and lp: "service_loop xs (d1, 2, 0) = Inr (d2, r2, length xs)"
    and bl: "(if int (length xs) < rows then blank_rows [length xs ..< nat rows] d2 else Inr d2) = Inr d3"
    and d': "d' = place_status d3 r2" by blast
  from set_title_frame[OF st] assms(1) have l1: "lists_ok d1" and s1: "slot d1 k = slot d k"
    by simp_all
  from service_loop_entry[OF lp assms(5)] obtain dk rk dk1 rk1 where
    fb: "for_body (xs ! k) (dk, rk, k) = Inr (dk1, rk1, Suc k)"
    and fr: "frame_on {0 ..< k} d1 dk" and s2: "slot d2 k = slot dk1 k" by auto
  have lk: "lists_ok dk" using frame_on_lists_ok[OF fr l1] .
  have k10: "k < 10"
  proof (rule ccontr)
    assume "\<not> k < 10"
    with lk have "length (time_disp dk) \<le> k" by (simp add: lists_ok_def)
    from for_body_out_of_range[OF this, of "xs ! k" rk] fb show False by simp
  qed
  from for_body_ok[OF assms(6) lists_ok_indexable[OF lk k10], of rk] fb
  have "slot dk1 k = render_slot (xs ! k) rk (slot dk k)" by auto
  moreover have "slot dk k = slot d1 k" using frame_on_slot[OF fr, of k] by simp
  moreover have "slot d3 k = slot d2 k"
  proof (cases "int (length xs) < rows")
    case True
    with bl have "blank_rows [length xs ..< nat rows] d2 = Inr d3" by simp
    from blank_rows_frame[of "[length xs ..< nat rows]" d2 d3] this assms(5)
    show ?thesis by (auto dest: frame_on_slot[where j = k])
  next
    case False
    with bl show ?thesis by simp
  qed
  ultimately show ?thesis using s1 s2 d' by auto
qed


lemma slot_nth:
  "slot d j ! 0 = time_disp d ! j" "slot d j ! 5 = cancelreason_disp d ! j"
  "slot d j ! 6 = delayreason_disp d ! j"
  by (simp_all add: slot_def primary_def)

lemma render_slot_nth:
  "render_slot s r ls ! 0 = grid (config_text (ls ! 0) (projr (getitem s (KStr ''std'')))) r 0 1"
  "render_slot s r ls ! 5 =
     (if cancel_cond s = Inr True
      then grid (config_text (ls ! 5) (projr (getitem s (KStr ''cancelReason'')))) (r + 1) 1 4
      else grid_remove (ls ! 5))"
  "render_slot s r ls ! 6 =
     (if delay_cond s = Inr True
      then grid (config_text (ls ! 6) (projr (getitem s (KStr ''delayReason'')))) (r + 1) 1 4
      else grid_remove (ls ! 6))"
  by (simp_all add: render_slot_def)

lemma shown_grid [simp]: "shown (grid l r c cs)"
  by (simp add: shown_def grid_def)

lemma shown_grid_remove [simp]: "\<not> shown (grid_remove l)"
  by (simp add: shown_def grid_remove_def)

lemma lbl_text_grid [simp]: "lbl_text (grid l r c cs) = lbl_text l"
  by (simp add: grid_def)

lemma lbl_grid_grid [simp]:
  "lbl_grid (grid l r c cs) = Some \<lparr>row = r, column = c, columnspan = cs\<rparr>"
  by (simp add: grid_def)

lemma lbl_text_config_text: "v \<noteq> PNone \<Longrightarrow> lbl_text (config_text l v) = v"
  by (simp add: config_text_def)

text \<open>
  C4, as the code has it. For every entry of a rendered response whose lookups all succeed:
  if \<^verbatim>\<open>isCancelled\<close> is true and the cancellation reason is not null, the cancellation line
  is shown on the row below the entry with that reason, and the delay line is hidden, whatever
  the delay reason; if the cancellation reason is null and the delay reason is not, the
  delay line is shown on the row below the entry with that reason and the cancellation line
  is hidden; if \<^verbatim>\<open>isCancelled\<close> is false and the cancellation reason is not null, both
  lines are hidden, whatever the delay reason.
\<close>

theorem reason_lines:
  assumes "lists_ok d" "has_data GSBR" "services_of GSBR = Inr xs"
    "display_info rows GSBR d = Inr d'" "k < length xs" "entry_ok (xs ! k)"
  shows "(getitem (xs ! k) (KStr ''isCancelled'') = Inr c \<and> truthy c
          \<and> getitem (xs ! k) (KStr ''cancelReason'') = Inr cr \<and> cr \<noteq> PNone
          \<longrightarrow> lbl_grid (cancelreason_disp d' ! k)
                = Some \<lparr>row = row (the (lbl_grid (time_disp d' ! k))) + 1, column = 1, columnspan = 4\<rparr>
              \<and> lbl_text (cancelreason_disp d' ! k) = cr
              \<and> \<not> shown (delayreason_disp d' ! k))
       \<and> (getitem (xs ! k) (KStr ''cancelReason'') = Inr PNone
          \<and> getitem (xs ! k) (KStr ''delayReason'') = Inr dr \<and> dr \<noteq> PNone
          \<longrightarrow> lbl_grid (delayreason_disp d' ! k)
                = Some \<lparr>row = row (the (lbl_grid (time_disp d' ! k))) + 1, column = 1, columnspan = 4\<rparr>
              \<and> lbl_text (delayreason_disp d' ! k) = dr
              \<and> \<not> shown (cancelreason_disp d' ! k))
       \<and> (getitem (xs ! k) (KStr ''isCancelled'') = Inr c \<and> \<not> truthy c
          \<and> getitem (xs ! k) (KStr ''cancelReason'') = Inr cr \<and> cr \<noteq> PNone
          \<longrightarrow> \<not> shown (cancelreason_disp d' ! k) \<and> \<not> shown (delayreason_disp d' ! k))"
proof -
  from rendered_entry[OF assms] obtain r where
    sl: "slot d' k = render_slot (xs ! k) r (slot d k)" by blast
  let ?s = "xs ! k"
  have t: "lbl_grid (time_disp d' ! k) = Some \<lparr>row = r, column = 0, columnspan = 1\<rparr>"
    using arg_cong[OF sl, of "\<lambda>l. l ! 0"] by (simp add: slot_nth render_slot_nth)
  have c: "cancelreason_disp d' ! k =
     (if cancel_cond ?s = Inr True
      then grid (config_text (cancelreason_disp d ! k) (projr (getitem ?s (KStr ''cancelReason''))))
             (r + 1) 1 4
      else grid_remove (cancelreason_disp d ! k))"
    using arg_cong[OF sl, of "\<lambda>l. l ! 5"] by (simp add: slot_nth render_slot_nth)
  have dl: "delayreason_disp d' ! k =
     (if delay_cond ?s = Inr True
      then grid (config_text (delayreason_disp d ! k) (projr (getitem ?s (KStr ''delayReason''))))
             (r + 1) 1 4
      else grid_remove (delayreason_disp d ! k))"
    using arg_cong[OF sl, of "\<lambda>l. l ! 6"] by (simp add: slot_nth render_slot_nth)
  from entry_okD(6)[OF assms(6)] obtain b where b: "cancel_cond ?s = Inr b" by blast
  show ?thesis
  proof (intro conjI impI)
    assume h: "getitem ?s (KStr ''isCancelled'') = Inr c \<and> truthy c
          \<and> getitem ?s (KStr ''cancelReason'') = Inr cr \<and> cr \<noteq> PNone"
    then have cc: "cancel_cond ?s = Inr True" and dc: "delay_cond ?s = Inr False"
      by (simp_all add: cancel_cond_def delay_cond_def is_not_None_def)
    from cc dc c dl t h
    show "lbl_grid (cancelreason_disp d' ! k)
            = Some \<lparr>row = row (the (lbl_grid (time_disp d' ! k))) + 1, column = 1, columnspan = 4\<rparr>"
      "lbl_text (cancelreason_disp d' ! k) = cr" "\<not> shown (delayreason_disp d' ! k)"
      by (simp_all add: lbl_text_config_text)
  next
    assume h: "getitem ?s (KStr ''cancelReason'') = Inr PNone
          \<and> getitem ?s (KStr ''delayReason'') = Inr dr \<and> dr \<noteq> PNone"
    then have dc: "delay_cond ?s = Inr True"
      by (simp add: delay_cond_def is_not_None_def)
    with not_both_reasons[of ?s] b have cc: "cancel_cond ?s \<noteq> Inr True" by auto
    from cc dc c dl t h
    show "lbl_grid (delayreason_disp d' ! k)
            = Some \<lparr>row = row (the (lbl_grid (time_disp d' ! k))) + 1, column = 1, columnspan = 4\<rparr>"
      "lbl_text (delayreason_disp d' ! k) = dr" "\<not> shown (cancelreason_disp d' ! k)"
      by (simp_all add: lbl_text_config_text)
  next
    assume h: "getitem ?s (KStr ''isCancelled'') = Inr c \<and> \<not> truthy c
          \<and> getitem ?s (KStr ''cancelReason'') = Inr cr \<and> cr \<noteq> PNone"
    then have cc: "cancel_cond ?s = Inr False" and dc: "delay_cond ?s = Inr False"
      by (simp_all add: cancel_cond_def delay_cond_def)
    from cc dc c dl
    show "\<not> shown (cancelreason_disp d' ! k)" "\<not> shown (delayreason_disp d' ! k)"
      by simp_all
  qed
qed

text \<open>
  C4 as stated fails: an entry that is not cancelled and carries both a cancellation
  reason and a delay reason is rendered without its delay line.
\<close>

theorem delay_reason_not_shown_counterexample:
  "getitem both_reasons (KStr ''isCancelled'') = Inr (PBool False)
   \<and> getitem both_reasons (KStr ''delayReason'') = Inr (PStr ''a late crew'')
   \<and> raised (display_info 10 (mk_response ''Reading'' [both_reasons]) init_display) = None
   \<and> shown (time_disp (carried (display_info 10 (mk_response ''Reading'' [both_reasons])
                                   init_display)) ! 0)
   \<and> \<not> shown (delayreason_disp (carried (display_info 10 (mk_response ''Reading'' [both_reasons])
                                            init_display)) ! 0)"
  by code_simp


lemma raised_None_Inr: "raised r = None \<Longrightarrow> r = Inr (carried r)"
  by (cases r) (auto simp: raised_def carried_def)

lemma has_data_mk_response [simp]: "has_data (mk_response name entries)"
  by (simp add: has_data_def mk_response_def)

lemma services_of_mk_response [simp]: "services_of (mk_response name entries) = Inr entries"
  by (simp add: services_of_def mk_response_def)

lemma example_entries_ok: "entry_ok on_time" "entry_ok cancelled" "entry_ok both_reasons"
  "entry_ok delayed"
  by (simp_all add: entry_ok_def entry_error_def err_def on_time_def cancelled_def both_reasons_def
      delayed_def mk_service_def platform_text_def cancel_cond_def delay_cond_def is_not_None_def
      norm_index_def)

theorem reason_lines_witness:
  "shown (cancelreason_disp board_cancelled ! 0) \<and> shown (delayreason_disp board_delayed ! 0)
   \<and> lbl_grid (delayreason_disp
         (carried (display_info 10 (mk_response ''Reading'' [delayed]) board_cancelled)) ! 0)
       = Some \<lparr>row = row (the (lbl_grid (time_disp
           (carried (display_info 10 (mk_response ''Reading'' [delayed]) board_cancelled)) ! 0))) + 1,
           column = 1, columnspan = 4\<rparr>
   \<and> lbl_text (delayreason_disp
         (carried (display_info 10 (mk_response ''Reading'' [delayed]) board_cancelled)) ! 0)
       = PStr ''a late crew''
   \<and> \<not> shown (cancelreason_disp
         (carried (display_info 10 (mk_response ''Reading'' [delayed]) board_cancelled)) ! 0)
   \<and> lbl_grid (cancelreason_disp
         (carried (display_info 10 (mk_response ''Reading'' [cancelled]) board_delayed)) ! 0)
       = Some \<lparr>row = row (the (lbl_grid (time_disp
           (carried (display_info 10 (mk_response ''Reading'' [cancelled]) board_delayed)) ! 0))) + 1,
           column = 1, columnspan = 4\<rparr>
   \<and> lbl_text (cancelreason_disp
         (carried (display_info 10 (mk_response ''Reading'' [cancelled]) board_delayed)) ! 0)
       = PStr ''a fault''
   \<and> \<not> shown (delayreason_disp
         (carried (display_info 10 (mk_response ''Reading'' [cancelled]) board_delayed)) ! 0)
   \<and> \<not> shown (cancelreason_disp
         (carried (display_info 10 (mk_response ''Reading'' [both_reasons]) board_cancelled)) ! 0)
   \<and> \<not> shown (delayreason_disp
         (carried (display_info 10 (mk_response ''Reading'' [both_reasons]) board_cancelled)) ! 0)"
proof -
  have before: "shown (cancelreason_disp board_cancelled ! 0)"
      "shown (delayreason_disp board_delayed ! 0)"
    unfolding board_cancelled_def board_delayed_def by code_simp+
  have l: "lists_ok board_cancelled" "lists_ok board_delayed"
    unfolding board_cancelled_def board_delayed_def by code_simp+
  have r1: "raised (display_info 10 (mk_response ''Reading'' [delayed]) board_cancelled) = None"
    unfolding board_cancelled_def by code_simp
  have r2: "raised (display_info 10 (mk_response ''Reading'' [cancelled]) board_delayed) = None"
    unfolding board_delayed_def by code_simp
  have r3: "raised (display_info 10 (mk_response ''Reading'' [both_reasons]) board_cancelled) = None"
    unfolding board_cancelled_def by code_simp
  have g1: "getitem delayed (KStr ''cancelReason'') = Inr PNone
          \<and> getitem delayed (KStr ''delayReason'') = Inr (PStr ''a late crew'')
          \<and> PStr ''a late crew'' \<noteq> PNone"
    by (simp add: delayed_def mk_service_def)
  have g2: "getitem cancelled (KStr ''isCancelled'') = Inr (PBool True) \<and> truthy (PBool True)
          \<and> getitem cancelled (KStr ''cancelReason'') = Inr (PStr ''a fault'')
          \<and> PStr ''a fault'' \<noteq> PNone"
    by (simp add: cancelled_def mk_service_def)
  have g3: "getitem both_reasons (KStr ''isCancelled'') = Inr (PBool False) \<and> \<not> truthy (PBool False)
          \<and> getitem both_reasons (KStr ''cancelReason'') = Inr (PStr ''a fault'')
          \<and> PStr ''a fault'' \<noteq> PNone"
    by (simp add: both_reasons_def mk_service_def)
  from reason_lines[OF l(1) has_data_mk_response services_of_mk_response raised_None_Inr[OF r1],
      of 0 _ _ "PStr ''a late crew''"] g1 example_entries_ok(4)
  have a: "lbl_grid (delayreason_disp
         (carried (display_info 10 (mk_response ''Reading'' [delayed]) board_cancelled)) ! 0)
       = Some \<lparr>row = row (the (lbl_grid (time_disp
           (carried (display_info 10 (mk_response ''Reading'' [delayed]) board_cancelled)) ! 0))) + 1,
           column = 1, columnspan = 4\<rparr>
   \<and> lbl_text (delayreason_disp
         (carried (display_info 10 (mk_response ''Reading'' [delayed]) board_cancelled)) ! 0)
       = PStr ''a late crew''
   \<and> \<not> shown (cancelreason_disp
         (carried (display_info 10 (mk_response ''Reading'' [delayed]) board_cancelled)) ! 0)"
    by simp
  from reason_lines[OF l(2) has_data_mk_response services_of_mk_response raised_None_Inr[OF r2],
      of 0 "PBool True" "PStr ''a fault''"] g2 example_entries_ok(2)
  have b: "lbl_grid (cancelreason_disp
         (carried (display_info 10 (mk_response ''Reading'' [cancelled]) board_delayed)) ! 0)
       = Some \<lparr>row = row (the (lbl_grid (time_disp
           (carried (display_info 10 (mk_response ''Reading'' [cancelled]) board_delayed)) ! 0))) + 1,
           column = 1, columnspan = 4\<rparr>
   \<and> lbl_text (cancelreason_disp
         (carried (display_info 10 (mk_response ''Reading'' [cancelled]) board_delayed)) ! 0)
       = PStr ''a fault''
   \<and> \<not> shown (delayreason_disp
         (carried (display_info 10 (mk_response ''Reading'' [cancelled]) board_delayed)) ! 0)"
    by simp
  from reason_lines[OF l(1) has_data_mk_response services_of_mk_response raised_None_Inr[OF r3],
      of 0 "PBool False" "PStr ''a fault''"] g3 example_entries_ok(3)
  have c: "\<not> shown (cancelreason_disp
         (carried (display_info 10 (mk_response ''Reading'' [both_reasons]) board_cancelled)) ! 0)
   \<and> \<not> shown (delayreason_disp
         (carried (display_info 10 (mk_response ''Reading'' [both_reasons]) board_cancelled)) ! 0)"
    by simp
  from before a b c show ?thesis by blast
qed

section \<open>An entry with a missing field\<close>

lemma run_steps_Inl:
  "run_steps fs c = Inl x \<Longrightarrow>
     \<exists>n<length fs. \<exists>c'. run_steps (take n fs) c = Inr c' \<and> (fs ! n) c' = Inl x"
proof (induction fs arbitrary: c)
  case Nil
  then show ?case by simp
next
  case (Cons f fs)
  show ?case
  proof (cases "f c")
    case (Inl y)
    with Cons.prems have "f c = Inl x" by simp
    then show ?thesis by (intro exI[of _ 0]) simp
  next
    case (Inr c2)
    with Cons.prems have "run_steps fs c2 = Inl x" by simp
    from Cons.IH[OF this] obtain n c' where n: "n < length fs"
      and 1: "run_steps (take n fs) c2 = Inr c'" and 2: "(fs ! n) c' = Inl x" by blast
    with Inr show ?thesis by (intro exI[of _ "Suc n"]) simp
  qed
qed

lemma reason_row_KeyError:
  assumes "reason_row cond txt i (ls, r) = Inl (KeyError ke, ls', r')"
    "cond = Inr True \<longrightarrow> (\<exists>v. txt = Inr v)"
  shows "ls' = ls \<and> r' = r \<and> cond = Inl (KeyError ke)"
  using assms
  by (auto simp: reason_row_def split: sum.splits bool.splits if_splits)

lemma cell_KeyError_unchanged:
  "put_time s i (d, r) = Inl (e, d1, r1) \<Longrightarrow> d1 = d \<and> r1 = r"
  "put_dest s i (d, r) = Inl (e, d1, r1) \<Longrightarrow> d1 = d \<and> r1 = r"
  "put_plat s i (d, r) = Inl (e, d1, r1) \<Longrightarrow> d1 = d \<and> r1 = r"
  "put_expt s i (d, r) = Inl (e, d1, r1) \<Longrightarrow> d1 = d \<and> r1 = r"
  "put_cars s i (d, r) = Inl (e, d1, r1) \<Longrightarrow> d1 = d \<and> r1 = r"
  by (auto simp: put_time_def put_dest_def put_plat_def put_expt_def put_cars_def
      split: sum.splits)

lemma put_cancelreason_KeyError:
  assumes "put_cancelreason s i (d, r) = Inl (KeyError ke, d1, r1)"
  shows "d1 = d \<and> r1 = r"
proof -
  from assms obtain ls where
    1: "reason_row (cancel_cond s) (getitem s (KStr ''cancelReason'')) i (cancelreason_disp d, r)
          = Inl (KeyError ke, ls, r1)" and d1: "d1 = d\<lparr>cancelreason_disp := ls\<rparr>"
    by (auto simp: put_cancelreason_def split: sum.splits prod.splits)
  have c: "cancel_cond s = Inr True \<longrightarrow> (\<exists>v. getitem s (KStr ''cancelReason'') = Inr v)"
    using cancel_cond_True[of s] by blast
  from reason_row_KeyError[OF 1 c] d1 show ?thesis by simp
qed

lemma put_delayreason_KeyError:
  assumes "put_delayreason s i (d, r) = Inl (KeyError ke, d1, r1)"
  shows "d1 = d \<and> r1 = r \<and> delay_cond s = Inl (KeyError ke)"
proof -
  from assms obtain ls where
    1: "reason_row (delay_cond s) (getitem s (KStr ''delayReason'')) i (delayreason_disp d, r)
          = Inl (KeyError ke, ls, r1)" and d1: "d1 = d\<lparr>delayreason_disp := ls\<rparr>"
    by (auto simp: put_delayreason_def split: sum.splits prod.splits)
  have c: "delay_cond s = Inr True \<longrightarrow> (\<exists>v. getitem s (KStr ''delayReason'') = Inr v)"
    using delay_cond_True[of s] by blast
  from reason_row_KeyError[OF 1 c] d1 show ?thesis by simp
qed

lemma delay_cond_KeyError_no_cancel:
  "delay_cond s = Inl (KeyError ke) \<Longrightarrow> cancel_cond s \<noteq> Inr True"
  by (auto simp: delay_cond_def dest!: cancel_cond_True split: sum.splits if_splits)

lemma put_cancelreason_row:
  "put_cancelreason s i (d, r) = Inr (d1, r1) \<Longrightarrow> cancel_cond s \<noteq> Inr True \<Longrightarrow> r1 = r"
  by (auto simp: put_cancelreason_def reason_row_def
      split: sum.splits prod.splits bool.splits if_splits)


lemma run_steps_Cons_Inr:
  "run_steps (f # fs) c = Inr c' \<Longrightarrow> \<exists>c1. f c = Inr c1 \<and> run_steps fs c1 = Inr c'"
  by (cases "f c") simp_all

lemma put_time_Inr:
  "put_time s i (d, r) = Inr (d', r') \<Longrightarrow>
     r' = r \<and> dest_disp d' = dest_disp d \<and> plat_disp d' = plat_disp d
     \<and> expt_disp d' = expt_disp d \<and> cars_disp d' = cars_disp d
     \<and> cancelreason_disp d' = cancelreason_disp d \<and> delayreason_disp d' = delayreason_disp d"
  by (auto simp: put_time_def split: sum.splits)

lemma put_dest_Inr:
  "put_dest s i (d, r) = Inr (d', r') \<Longrightarrow>
     r' = r \<and> plat_disp d' = plat_disp d
     \<and> expt_disp d' = expt_disp d \<and> cars_disp d' = cars_disp d
     \<and> cancelreason_disp d' = cancelreason_disp d \<and> delayreason_disp d' = delayreason_disp d"
  by (auto simp: put_dest_def split: sum.splits)

lemma put_plat_Inr:
  "put_plat s i (d, r) = Inr (d', r') \<Longrightarrow>
     r' = r \<and> expt_disp d' = expt_disp d \<and> cars_disp d' = cars_disp d
     \<and> cancelreason_disp d' = cancelreason_disp d \<and> delayreason_disp d' = delayreason_disp d"
  by (auto simp: put_plat_def split: sum.splits)

lemma put_expt_Inr:
  "put_expt s i (d, r) = Inr (d', r') \<Longrightarrow>
     r' = r \<and> cars_disp d' = cars_disp d
     \<and> cancelreason_disp d' = cancelreason_disp d \<and> delayreason_disp d' = delayreason_disp d"
  by (auto simp: put_expt_def split: sum.splits)

lemma put_cars_Inr:
  "put_cars s i (d, r) = Inr (d', r') \<Longrightarrow>
     r' = r \<and> cancelreason_disp d' = cancelreason_disp d
     \<and> delayreason_disp d' = delayreason_disp d"
  by (auto simp: put_cars_def split: sum.splits)

lemma put_cancelreason_Inr:
  "put_cancelreason s i (d, r) = Inr (d', r') \<Longrightarrow> delayreason_disp d' = delayreason_disp d"
  by (auto simp: put_cancelreason_def split: sum.splits prod.splits)

lemma try_prefix:
  assumes "n < 7" "run_steps (take n (try_statements s i)) (d, r) = Inr (dn, rn)"
  shows "drop n (slot dn i) = drop n (slot d i) \<and> (n \<le> 5 \<longrightarrow> rn = r)
         \<and> (n = 6 \<longrightarrow> (\<exists>d5. put_cancelreason s i (d5, r) = Inr (dn, rn)))"
proof -
  have ts: "try_statements s i = [put_time s i, put_dest s i, put_plat s i, put_expt s i,
      put_cars s i, put_cancelreason s i, put_delayreason s i]"
    by (simp add: try_statements_def)
  from assms(1) consider "n = 0" | "n = 1" | "n = 2" | "n = 3" | "n = 4" | "n = 5" | "n = 6"
    by linarith
  then show ?thesis
  proof cases
    case 1
    with assms(2) show ?thesis by simp
  next
    case 2
    with assms(2) ts have "put_time s i (d, r) = Inr (dn, rn)"
      by (auto simp del: run_steps.simps(2) dest!: run_steps_Cons_Inr)
    from put_time_Inr[OF this] 2 show ?thesis by (simp add: slot_def primary_def)
  next
    case 3
    with assms(2) ts obtain d1 r1 where "put_time s i (d, r) = Inr (d1, r1)"
      "put_dest s i (d1, r1) = Inr (dn, rn)"
      by (auto simp: numeral_2_eq_2 simp del: run_steps.simps(2) dest!: run_steps_Cons_Inr)
    from put_time_Inr[OF this(1)] put_dest_Inr[OF this(2)] 3 show ?thesis
      by (simp add: slot_def primary_def)
  next
    case 4
    with assms(2) ts obtain d1 r1 d2 r2 where "put_time s i (d, r) = Inr (d1, r1)"
      "put_dest s i (d1, r1) = Inr (d2, r2)" "put_plat s i (d2, r2) = Inr (dn, rn)"
      by (auto simp: numeral_3_eq_3 simp del: run_steps.simps(2) dest!: run_steps_Cons_Inr)
    from put_time_Inr[OF this(1)] put_dest_Inr[OF this(2)] put_plat_Inr[OF this(3)] 4
    show ?thesis by (simp add: slot_def primary_def)
  next
    case 5
    have "take 4 (try_statements s i) = [put_time s i, put_dest s i, put_plat s i, put_expt s i]"
      by (simp add: ts)
    with 5 assms(2) obtain d1 r1 d2 r2 d3 r3 where "put_time s i (d, r) = Inr (d1, r1)"
      "put_dest s i (d1, r1) = Inr (d2, r2)" "put_plat s i (d2, r2) = Inr (d3, r3)"
      "put_expt s i (d3, r3) = Inr (dn, rn)"
      by (auto simp del: run_steps.simps(2) dest!: run_steps_Cons_Inr)
    from put_time_Inr[OF this(1)] put_dest_Inr[OF this(2)] put_plat_Inr[OF this(3)]
      put_expt_Inr[OF this(4)] 5
    show ?thesis by (simp add: slot_def primary_def)
  next
    case 6
    have "take 5 (try_statements s i)
            = [put_time s i, put_dest s i, put_plat s i, put_expt s i, put_cars s i]"
      by (simp add: ts)
    with 6 assms(2) obtain d1 r1 d2 r2 d3 r3 d4 r4 where "put_time s i (d, r) = Inr (d1, r1)"
      "put_dest s i (d1, r1) = Inr (d2, r2)" "put_plat s i (d2, r2) = Inr (d3, r3)"
      "put_expt s i (d3, r3) = Inr (d4, r4)" "put_cars s i (d4, r4) = Inr (dn, rn)"
      by (auto simp del: run_steps.simps(2) dest!: run_steps_Cons_Inr)
    from put_time_Inr[OF this(1)] put_dest_Inr[OF this(2)] put_plat_Inr[OF this(3)]
      put_expt_Inr[OF this(4)] put_cars_Inr[OF this(5)] 6
    show ?thesis by (simp add: slot_def primary_def)
  next
    case 7
    have "take 6 (try_statements s i)
            = [put_time s i, put_dest s i, put_plat s i, put_expt s i, put_cars s i,
               put_cancelreason s i]"
      by (simp add: ts)
    with 7 assms(2) obtain d1 r1 d2 r2 d3 r3 d4 r4 d5 r5 where
      "put_time s i (d, r) = Inr (d1, r1)"
      "put_dest s i (d1, r1) = Inr (d2, r2)" "put_plat s i (d2, r2) = Inr (d3, r3)"
      "put_expt s i (d3, r3) = Inr (d4, r4)" "put_cars s i (d4, r4) = Inr (d5, r5)"
      "put_cancelreason s i (d5, r5) = Inr (dn, rn)"
      by (auto simp del: run_steps.simps(2) dest!: run_steps_Cons_Inr)
    from put_time_Inr[OF this(1)] put_dest_Inr[OF this(2)] put_plat_Inr[OF this(3)]
      put_expt_Inr[OF this(4)] put_cars_Inr[OF this(5)] put_cancelreason_Inr[OF this(6)] this(6) 7
    show ?thesis by (auto simp: slot_def primary_def)
  qed
qed

lemma statement_KeyError_unchanged:
  assumes "n < 7" "(try_statements s i ! n) (d, r) = Inl (KeyError ke, d1, r1)"
  shows "d1 = d \<and> r1 = r \<and> (n = 6 \<longrightarrow> delay_cond s = Inl (KeyError ke))"
proof -
  from assms(1) consider "n = 0" | "n = 1" | "n = 2" | "n = 3" | "n = 4" | "n = 5" | "n = 6"
    by linarith
  then show ?thesis
  proof cases
    case 1 with assms(2) cell_KeyError_unchanged(1)[of s i d r] show ?thesis
      by (simp add: try_statements_def)
  next
    case 2 with assms(2) cell_KeyError_unchanged(2)[of s i d r] show ?thesis
      by (simp add: try_statements_def)
  next
    case 3 with assms(2) cell_KeyError_unchanged(3)[of s i d r] show ?thesis
      by (simp add: try_statements_def)
  next
    case 4 with assms(2) cell_KeyError_unchanged(4)[of s i d r] show ?thesis
      by (simp add: try_statements_def)
  next
    case 5 with assms(2) cell_KeyError_unchanged(5)[of s i d r] show ?thesis
      by (simp add: try_statements_def)
  next
    case 6 with assms(2) put_cancelreason_KeyError[of s i d r ke d1 r1] show ?thesis
      by (simp add: try_statements_def)
  next
    case 7 with assms(2) put_delayreason_KeyError[of s i d r ke d1 r1] show ?thesis
      by (simp add: try_statements_def)
  qed
qed

lemma try_body_KeyError:
  assumes "try_body s i (d, r) = Inl (KeyError ke, d1, r1)"
  shows "(\<exists>n<7. run_steps (take n (try_statements s i)) (d, r) = Inr (d1, r)
               \<and> (try_statements s i ! n) (d1, r) = Inl (KeyError ke, d1, r)
               \<and> drop n (slot d1 i) = drop n (slot d i))
         \<and> (\<forall>j. j \<noteq> i \<longrightarrow> slot d1 j = slot d j)
         \<and> r1 = r
         \<and> for_body s (d, r, i)
             = Inr (statusbar_text d1 (''Unknown data key '' @ key_repr ke), r + 1, i + 1)"
proof -
  from assms have "run_steps (try_statements s i) (d, r) = Inl (KeyError ke, d1, r1)"
    by (simp add: try_body_def)
  from run_steps_Inl[OF this] obtain n c' where n': "n < length (try_statements s i)"
    and pre': "run_steps (take n (try_statements s i)) (d, r) = Inr c'"
    and st': "(try_statements s i ! n) c' = Inl (KeyError ke, d1, r1)"
    by blast
  obtain dn rn where c': "c' = (dn, rn)" by (cases c') auto
  have n: "n < 7" using n' by (simp add: try_statements_def)
  have pre: "run_steps (take n (try_statements s i)) (d, r) = Inr (dn, rn)"
    using pre' c' by simp
  have st: "(try_statements s i ! n) (dn, rn) = Inl (KeyError ke, d1, r1)"
    using st' c' by simp
  from statement_KeyError_unchanged[OF n st]
  have same: "d1 = dn" "r1 = rn" and dc: "n = 6 \<longrightarrow> delay_cond s = Inl (KeyError ke)"
    by simp_all
  from try_prefix[OF n pre]
  have dr: "drop n (slot dn i) = drop n (slot d i)" and r5: "n \<le> 5 \<longrightarrow> rn = r"
    and c6: "n = 6 \<longrightarrow> (\<exists>d5. put_cancelreason s i (d5, r) = Inr (dn, rn))"
    by simp_all
  have rn: "rn = r"
  proof (cases "n = 6")
    case True
    with dc c6 obtain d5 where "delay_cond s = Inl (KeyError ke)"
      "put_cancelreason s i (d5, r) = Inr (dn, rn)" by blast
    with put_cancelreason_row[of s i d5 r dn rn] delay_cond_KeyError_no_cancel[of s ke]
    show ?thesis by simp
  next
    case False
    with n r5 show ?thesis by simp
  qed
  from try_body_frame[of s i d r d1 r1 "KeyError ke"] assms
  have fr: "\<forall>j. j \<noteq> i \<longrightarrow> slot d1 j = slot d j"
    by (simp add: frame_on_def)
  from assms same rn
  have fb: "for_body s (d, r, i)
             = Inr (statusbar_text d1 (''Unknown data key '' @ key_repr ke), r + 1, i + 1)"
    by (simp add: for_body_def)
  from n pre st same rn dr fr fb show ?thesis by blast
qed

text \<open>
  C10. When the \<^verbatim>\<open>try\<close> body of an entry raises \<^verbatim>\<open>KeyError\<close>, the display is the one
  reached by running the statements before the failing one completely: their labels of the
  slot have their new values; the failing statement changed nothing, so the labels of the
  slot from its own on are as they were before the entry, and no other slot is touched.
  \<^verbatim>\<open>display_row\<close> was not advanced inside \<^verbatim>\<open>try\<close>; the handler writes the status bar,
  and the loop goes on one row and one slot further.
\<close>

theorem missing_field_not_atomic:
  assumes "try_body s i (d, r) = Inl (KeyError ke, d1, r1)"
  shows "(\<exists>n<7. run_steps (take n (try_statements s i)) (d, r) = Inr (d1, r)
               \<and> (try_statements s i ! n) (d1, r) = Inl (KeyError ke, d1, r)
               \<and> drop n (slot d1 i) = drop n (slot d i))
         \<and> (\<forall>j. j \<noteq> i \<longrightarrow> slot d1 j = slot d j)
         \<and> r1 = r
         \<and> for_body s (d, r, i)
             = Inr (statusbar_text d1 (''Unknown data key '' @ key_repr ke), r + 1, i + 1)"
  using assms by (rule try_body_KeyError)

theorem missing_field_not_atomic_witness:
  "try_body no_platform 0 (board_one, 2)
     = Inl (KeyError (KStr ''platform''), carried (try_body no_platform 0 (board_one, 2)))
   \<and> lbl_text (time_disp (fst (carried (try_body no_platform 0 (board_one, 2)))) ! 0) = PStr ''11:00''
   \<and> lbl_text (dest_disp (fst (carried (try_body no_platform 0 (board_one, 2)))) ! 0) = PStr ''Ely''
   \<and> lbl_text (plat_disp (fst (carried (try_body no_platform 0 (board_one, 2)))) ! 0) = PStr ''4''
   \<and> lbl_text (expt_disp (fst (carried (try_body no_platform 0 (board_one, 2)))) ! 0) = PStr ''On time''
   \<and> lbl_text (cars_disp (fst (carried (try_body no_platform 0 (board_one, 2)))) ! 0) = PStr ''8''
   \<and> for_body no_platform (board_one, 2, 0)
       = Inr (statusbar_text (fst (carried (try_body no_platform 0 (board_one, 2))))
                (''Unknown data key '' @ key_repr (KStr ''platform'')), 2 + 1, 0 + 1)"
proof -
  have e: "raised (try_body no_platform 0 (board_one, 2)) = Some (KeyError (KStr ''platform''))"
    unfolding board_one_def by code_simp
  then have 1: "try_body no_platform 0 (board_one, 2)
     = Inl (KeyError (KStr ''platform''), fst (carried (try_body no_platform 0 (board_one, 2))),
            snd (carried (try_body no_platform 0 (board_one, 2))))"
    by (cases "try_body no_platform 0 (board_one, 2)") (auto simp: raised_def carried_def)
  have 2: "lbl_text (time_disp (fst (carried (try_body no_platform 0 (board_one, 2)))) ! 0) = PStr ''11:00''
   \<and> lbl_text (dest_disp (fst (carried (try_body no_platform 0 (board_one, 2)))) ! 0) = PStr ''Ely''
   \<and> lbl_text (plat_disp (fst (carried (try_body no_platform 0 (board_one, 2)))) ! 0) = PStr ''4''
   \<and> lbl_text (expt_disp (fst (carried (try_body no_platform 0 (board_one, 2)))) ! 0) = PStr ''On time''
   \<and> lbl_text (cars_disp (fst (carried (try_body no_platform 0 (board_one, 2)))) ! 0) = PStr ''8''"
    unfolding board_one_def by code_simp
  have 0: "try_body no_platform 0 (board_one, 2)
     = Inl (KeyError (KStr ''platform''), carried (try_body no_platform 0 (board_one, 2)))"
    using e by (cases "try_body no_platform 0 (board_one, 2)") (auto simp: raised_def carried_def)
  from missing_field_not_atomic[OF 1]
  have 3: "for_body no_platform (board_one, 2, 0)
       = Inr (statusbar_text (fst (carried (try_body no_platform 0 (board_one, 2))))
                (''Unknown data key '' @ key_repr (KStr ''platform'')), 2 + 1, 0 + 1)"
    by blast
  from 0 2 3 show ?thesis by blast
qed

section \<open>Entries with missing keys in a response\<close>












lemma statusbar_statusbar_text [simp]: "lbl_text (statusbar (statusbar_text d m)) = PStr m"
  by (simp add: statusbar_text_def)







lemma statusbar_place_status [simp]:
  "lbl_text (statusbar (place_status d r)) = lbl_text (statusbar d)"
  by (simp add: place_status_def)







end
